theory Spec2Isabelle
  imports Main "HOL-Library.Sublist" "HOL-Library.Log_Nat"
begin

section \<open>ECMAScript values and strings\<close>

text \<open>
  The program is \<^verbatim>\<open>api/pull-and-parse.ts\<close>. Its input is the result of
  \<^verbatim>\<open>JSON.parse\<close>, typed \<^verbatim>\<open>unknown\<close> field by field, so a value is modelled as
  a JSON value. A number is kept as the text \<^verbatim>\<open>String\<close> renders it to, because the
  program reads a number through \<^verbatim>\<open>String\<close> and \<^verbatim>\<open>Boolean\<close> only. An object is the
  association list of its own properties.

  A string is the list of its UTF-16 code units, each an integer from 0 to 65535;
  \<open>str\<close> turns a literal of the theory into such a list.
\<close>

type_synonym code_unit = int

type_synonym jsstring = "code_unit list"

definition str :: "string \<Rightarrow> jsstring" where
  "str s = map of_char s"

datatype jsval =
    JUndefined
  | JNull
  | JBool bool
  | JNum jsstring
  | JStr jsstring
  | JArr "jsval list"
  | JObj "(jsstring \<times> jsval) list"

text \<open>
  Every \<^verbatim>\<open>throw new Error(msg)\<close> of the source is \<open>Error msg\<close>; a \<open>TypeError\<close> is what
  the runtime raises on a property read of \<^verbatim>\<open>null\<close> and on a failed conversion to a
  primitive.
\<close>

datatype error = Error jsstring | TypeError jsstring

definition bindE :: "error + 'a \<Rightarrow> ('a \<Rightarrow> error + 'b) \<Rightarrow> error + 'b" where
  "bindE m f = (case m of Inl e \<Rightarrow> Inl e | Inr x \<Rightarrow> f x)"

fun sequenceE :: "(error + 'a) list \<Rightarrow> error + 'a list" where
  "sequenceE [] = Inr []"
| "sequenceE (m # ms) =
     (case m of
        Inl e \<Rightarrow> Inl e
      | Inr x \<Rightarrow> (case sequenceE ms of Inl e \<Rightarrow> Inl e | Inr xs \<Rightarrow> Inr (x # xs)))"

text \<open>\<^verbatim>\<open>a ?? b\<close>\<close>

definition nullish :: "jsval \<Rightarrow> bool" where
  "nullish v = (v = JUndefined \<or> v = JNull)"

definition coalesce :: "jsval \<Rightarrow> jsval \<Rightarrow> jsval" where
  "coalesce a b = (if nullish a then b else a)"

text \<open>
  \<^verbatim>\<open>v.k\<close> for the property names the program reads (none of them is found on a
  prototype): a \<open>TypeError\<close> on \<^verbatim>\<open>null\<close> and \<^verbatim>\<open>undefined\<close>, the own property of an
  object, \<^verbatim>\<open>undefined\<close> on everything else. Code unit 39 is the single quote of the
  message.
\<close>

fun js_get :: "jsval \<Rightarrow> jsstring \<Rightarrow> error + jsval" where
  "js_get JUndefined k =
     Inl (TypeError (str ''Cannot read properties of undefined (reading '' @ [39] @ k @ [39] @ str '')''))"
| "js_get JNull k =
     Inl (TypeError (str ''Cannot read properties of null (reading '' @ [39] @ k @ [39] @ str '')''))"
| "js_get (JObj kvs) k = Inr (case map_of kvs k of None \<Rightarrow> JUndefined | Some v \<Rightarrow> v)"
| "js_get v k = Inr JUndefined"

fun intercalate :: "jsstring \<Rightarrow> jsstring list \<Rightarrow> jsstring" where
  "intercalate sep [] = []"
| "intercalate sep [x] = x"
| "intercalate sep (x # y # ys) = x @ sep @ intercalate sep (y # ys)"

text \<open>
  \<^verbatim>\<open>String(v)\<close>. An array is joined with commas, \<^verbatim>\<open>null\<close> elements giving the empty
  string. A plain object goes through \<^verbatim>\<open>OrdinaryToPrimitive\<close>: without an own
  \<^verbatim>\<open>toString\<close> property it reaches \<^verbatim>\<open>Object.prototype.toString\<close>; with one (never
  callable in parsed JSON) the inherited \<^verbatim>\<open>valueOf\<close> returns the object itself, or an own
  \<^verbatim>\<open>valueOf\<close> is not callable either, and a \<open>TypeError\<close> is raised.
\<close>

fun js_String :: "jsval \<Rightarrow> error + jsstring" where
  "js_String JUndefined = Inr (str ''undefined'')"
| "js_String JNull = Inr (str ''null'')"
| "js_String (JBool b) = Inr (if b then str ''true'' else str ''false'')"
| "js_String (JNum s) = Inr s"
| "js_String (JStr s) = Inr s"
| "js_String (JArr xs) =
     (case sequenceE (map (\<lambda>x. case x of JUndefined \<Rightarrow> Inr [] | JNull \<Rightarrow> Inr [] | _ \<Rightarrow> js_String x) xs) of
        Inl e \<Rightarrow> Inl e
      | Inr ss \<Rightarrow> Inr (intercalate (str '','') ss))"
| "js_String (JObj kvs) =
     (if str ''toString'' \<in> fst ` set kvs
      then Inl (TypeError (str ''Cannot convert object to primitive value''))
      else Inr (str ''[object Object]''))"

text \<open>\<^verbatim>\<open>Boolean(v)\<close>\<close>

fun js_Boolean :: "jsval \<Rightarrow> bool" where
  "js_Boolean JUndefined = False"
| "js_Boolean JNull = False"
| "js_Boolean (JBool b) = b"
| "js_Boolean (JNum s) = (s \<noteq> str ''0'' \<and> s \<noteq> str ''NaN'')"
| "js_Boolean (JStr s) = (s \<noteq> [])"
| "js_Boolean (JArr xs) = True"
| "js_Boolean (JObj kvs) = True"

text \<open>
  The white space of ECMAScript (\<^verbatim>\<open>WhiteSpace\<close> and \<^verbatim>\<open>LineTerminator\<close>), which
  \<^verbatim>\<open>String.prototype.trim\<close>, the class \<^verbatim>\<open>\s\<close> and \<^verbatim>\<open>parseInt\<close> share: U+0009 to
  U+000D, U+0020, U+00A0, U+1680, U+2000 to U+200A, U+2028, U+2029, U+202F, U+205F,
  U+3000 and U+FEFF.
\<close>

definition is_space :: "code_unit \<Rightarrow> bool" where
  "is_space c =
     ((9 \<le> c \<and> c \<le> 13) \<or> c = 32 \<or> c = 160 \<or> c = 5760 \<or> (8192 \<le> c \<and> c \<le> 8202) \<or>
      c = 8232 \<or> c = 8233 \<or> c = 8239 \<or> c = 8287 \<or> c = 12288 \<or> c = 65279)"

text \<open>\<^verbatim>\<open>String.prototype.trim\<close>\<close>

definition trim :: "jsstring \<Rightarrow> jsstring" where
  "trim s = rev (dropWhile is_space (rev (dropWhile is_space s)))"

text \<open>
  \<^verbatim>\<open>String.prototype.toUpperCase\<close> is the case conversion of the Unicode version of
  the runtime. It is not fixed here: every definition that calls it takes it as its
  first argument, \<open>toUpperCase\<close>, and a theorem assumes of it no more than
  \<open>case_mapping\<close> below. The examples run with \<open>ascii_toUpperCase\<close>, which is that
  conversion on the strings of the examples: ASCII code units, and white space, which
  has no case.
\<close>

definition ascii_upper :: "code_unit \<Rightarrow> code_unit" where
  "ascii_upper c = (if 97 \<le> c \<and> c \<le> 122 then c - 32 else c)"

definition ascii_toUpperCase :: "jsstring \<Rightarrow> jsstring" where
  "ascii_toUpperCase s = map ascii_upper s"

section \<open>The helpers of the source\<close>

text \<open>
  \<^verbatim>\<open>function text(input: unknown, fallback = ""): string {
    const v = String(input ?? "").trim();
    return v || fallback; }\<close>
\<close>

definition text_js :: "jsval \<Rightarrow> jsstring \<Rightarrow> error + jsstring" where
  "text_js input fallback =
     bindE (js_String (coalesce input (JStr [])))
       (\<lambda>s. let v = trim s in Inr (if v \<noteq> [] then v else fallback))"

text \<open>\<^verbatim>\<open>function maybeText(input: unknown): string | null\<close>\<close>

definition maybeText :: "jsval \<Rightarrow> error + jsstring option" where
  "maybeText input =
     bindE (js_String (coalesce input (JStr [])))
       (\<lambda>s. let v = trim s in Inr (if v \<noteq> [] then Some v else None))"

text \<open>
  \<^verbatim>\<open>function normalizeCatalog(input: string): string {
    return input.toUpperCase().replace(/[\s_-]+/g, ""); }\<close>
  The global replacement deletes, from left to right, every maximal run of code units
  of the class; 95 is the underscore and 45 the hyphen.
\<close>

definition is_sep :: "code_unit \<Rightarrow> bool" where
  "is_sep c = (is_space c \<or> c = 95 \<or> c = 45)"

function replace_runs :: "jsstring \<Rightarrow> jsstring" where
  "replace_runs [] = []"
| "replace_runs (c # cs) =
     (if is_sep c then replace_runs (dropWhile is_sep cs) else c # replace_runs cs)"
  by pat_completeness auto
termination
  by (relation "measure length") (auto simp: length_dropWhile_le less_Suc_eq_le)

definition normalizeCatalog :: "(jsstring \<Rightarrow> jsstring) \<Rightarrow> jsstring \<Rightarrow> jsstring" where
  "normalizeCatalog toUpperCase input = replace_runs (toUpperCase input)"

text \<open>
  \<^verbatim>\<open>Number.parseInt(s, 10)\<close>: leading white space is skipped, one sign is read (43 is
  the plus, 45 the minus), then the longest run of decimal digits (48 to 57); no digit
  gives \<^verbatim>\<open>NaN\<close>. The result is a Number, that is the integer rounded to the nearest
  double (ties to even), and an infinity from \<open>2 ^ 1024\<close> on. Only integral Numbers
  arise here.
\<close>

datatype number = NaN | Num int | PosInfinity | NegInfinity

definition is_digit :: "code_unit \<Rightarrow> bool" where
  "is_digit c = (48 \<le> c \<and> c \<le> 57)"

definition digit_val :: "code_unit \<Rightarrow> int" where
  "digit_val c = c - 48"

definition digits_val :: "jsstring \<Rightarrow> int" where
  "digits_val ds = foldl (\<lambda>n c. 10 * n + digit_val c) 0 ds"

function bit_length :: "int \<Rightarrow> nat" where
  "bit_length n = (if n \<le> 0 then 0 else Suc (bit_length (n div 2)))"
  by pat_completeness auto
termination
  by (relation "measure nat") auto

declare bit_length.simps [simp del]

definition round_f64 :: "int \<Rightarrow> int" where
  "round_f64 m =
     (if m < 2 ^ 53 then m
      else let e = bit_length m - 53;
               q = m div 2 ^ e;
               r = m mod 2 ^ e;
               h = 2 ^ (e - 1)
           in (if h < r \<or> (r = h \<and> odd q) then q + 1 else q) * 2 ^ e)"

definition to_Number :: "bool \<Rightarrow> int \<Rightarrow> number" where
  "to_Number negative m =
     (let v = round_f64 m
      in if 2 ^ 1024 \<le> v then (if negative then NegInfinity else PosInfinity)
         else Num (if negative then - v else v))"

definition parseInt10 :: "jsstring \<Rightarrow> number" where
  "parseInt10 input =
     (let s = dropWhile is_space input;
          negative = (case s of [] \<Rightarrow> False | c # _ \<Rightarrow> c = 45);
          s' = (case s of [] \<Rightarrow> [] | c # cs \<Rightarrow> if c = 43 \<or> c = 45 then cs else s);
          z = takeWhile is_digit s'
      in if z = [] then NaN else to_Number negative (digits_val z))"

text \<open>
  \<^verbatim>\<open>function asQty(input: unknown): number | null {
    const parsed = Number.parseInt(String(input ?? "").trim(), 10);
    return Number.isFinite(parsed) && parsed > 0 ? parsed : null; }\<close>
\<close>

definition asQty :: "jsval \<Rightarrow> error + int option" where
  "asQty input =
     bindE (js_String (coalesce input (JStr [])))
       (\<lambda>s. Inr (case parseInt10 (trim s) of
                   Num n \<Rightarrow> if 0 < n then Some n else None
                 | _ \<Rightarrow> None))"

section \<open>The draft\<close>

record draft_line =
  brandInputUpper :: jsstring
  catalogUpper :: jsstring
  normalizedCatalog :: jsstring
  quantity :: int

record draft =
  customer_name :: jsstring
  customer_country :: jsstring
  billing_address :: "jsstring option"
  contact_person :: "jsstring option"
  contact_phone :: "jsstring option"
  contact_email :: "jsstring option"
  delivery_company_name :: "jsstring option"
  delivery_address :: "jsstring option"
  delivery_contact_person :: "jsstring option"
  delivery_phone :: "jsstring option"
  delivery_email :: "jsstring option"
  lines :: "draft_line list"

text \<open>The callback of \<^verbatim>\<open>items.map\<close> in \<^verbatim>\<open>transformAiToDraft\<close>; \<open>None\<close> is its \<^verbatim>\<open>null\<close>.\<close>

definition transform_line :: "(jsstring \<Rightarrow> jsstring) \<Rightarrow> jsval \<Rightarrow> error + draft_line option" where
  "transform_line toUpperCase line =
     bindE (js_get line (str ''brand'')) (\<lambda>b.
     bindE (text_js b []) (\<lambda>brand.
     bindE (js_get line (str ''catalog_number'')) (\<lambda>c.
     bindE (text_js c []) (\<lambda>catalog.
     bindE (js_get line (str ''quantity'')) (\<lambda>q.
     bindE (asQty q) (\<lambda>qty.
       Inr (case qty of
              None \<Rightarrow> None
            | Some n \<Rightarrow>
                if brand = [] \<or> catalog = [] then None
                else Some \<lparr>brandInputUpper = toUpperCase brand,
                           catalogUpper = toUpperCase catalog,
                           normalizedCatalog = normalizeCatalog toUpperCase catalog,
                           quantity = n\<rparr>)))))))"

text \<open>\<^verbatim>\<open>Array.isArray(ai.items) ? ai.items : []\<close>\<close>

definition items_of :: "jsval \<Rightarrow> jsval list" where
  "items_of v = (case v of JArr xs \<Rightarrow> xs | _ \<Rightarrow> [])"

text \<open>
  \<^verbatim>\<open>function transformAiToDraft(ai: RawAiDraft)\<close>. The fields of the object literal
  are evaluated in the order of the source; \<^verbatim>\<open>.filter(Boolean)\<close> keeps the entries that
  are not \<^verbatim>\<open>null\<close>.
\<close>

definition transformAiToDraft :: "(jsstring \<Rightarrow> jsstring) \<Rightarrow> jsval \<Rightarrow> error + draft" where
  "transformAiToDraft toUpperCase ai =
     bindE (js_get ai (str ''customer'')) (\<lambda>c. let customer = coalesce c (JObj []) in
     bindE (js_get ai (str ''delivery'')) (\<lambda>d. let delivery = coalesce d (JObj []) in
     bindE (js_get ai (str ''items'')) (\<lambda>i. let items = items_of i in
     bindE (bindE (js_get customer (str ''name'')) (\<lambda>v. text_js v [])) (\<lambda>f1.
     bindE (bindE (js_get customer (str ''country'')) (\<lambda>v. text_js v [])) (\<lambda>f2.
     bindE (bindE (js_get customer (str ''billing_address'')) maybeText) (\<lambda>f3.
     bindE (bindE (js_get customer (str ''contact_person'')) maybeText) (\<lambda>f4.
     bindE (bindE (js_get customer (str ''contact_phone'')) maybeText) (\<lambda>f5.
     bindE (bindE (js_get customer (str ''contact_email'')) maybeText) (\<lambda>f6.
     bindE (bindE (js_get delivery (str ''company_name'')) maybeText) (\<lambda>f7.
     bindE (bindE (js_get delivery (str ''address'')) maybeText) (\<lambda>f8.
     bindE (bindE (js_get delivery (str ''contact_person'')) maybeText) (\<lambda>f9.
     bindE (bindE (js_get delivery (str ''phone'')) maybeText) (\<lambda>f10.
     bindE (bindE (js_get delivery (str ''email'')) maybeText) (\<lambda>f11.
     bindE (sequenceE (map (transform_line toUpperCase) items)) (\<lambda>rs.
       Inr \<lparr>customer_name = f1,
            customer_country = f2,
            billing_address = f3,
            contact_person = f4,
            contact_phone = f5,
            contact_email = f6,
            delivery_company_name = f7,
            delivery_address = f8,
            delivery_contact_person = f9,
            delivery_phone = f10,
            delivery_email = f11,
            lines = List.map_filter (\<lambda>r. r) rs\<rparr>)))))))))))))))"

section \<open>DraftNormalizer in the words of the specification\<close>

text \<open>
  The definitions of this section say what the specification says, without the
  helpers of the source. First the white space, as the list of its code units, and what
  is left of a string when the white space at its two ends is removed; a string is
  blank when that is nothing.
\<close>

definition white_space :: "code_unit list" where
  "white_space =
     [9, 10, 11, 12, 13, 32, 160, 5760, 8192, 8193, 8194, 8195, 8196, 8197, 8198, 8199, 8200,
      8201, 8202, 8232, 8233, 8239, 8287, 12288, 65279]"

definition blank :: "jsstring \<Rightarrow> bool" where
  "blank s = (\<forall>c \<in> set s. c \<in> set white_space)"

definition strip :: "jsstring \<Rightarrow> jsstring" where
  "strip s =
     (let t = dropWhile (\<lambda>c. c \<in> set white_space) s
      in take (length t - length (takeWhile (\<lambda>c. c \<in> set white_space) (rev t))) t)"

text \<open>
  The string a field coerces to, \<open>None\<close> when the coercion raises: a missing or
  \<^verbatim>\<open>null\<close> field gives the empty string, an array its elements joined by commas (44),
  \<^verbatim>\<open>null\<close> elements empty, and an object the fixed text, unless it has a property
  \<^verbatim>\<open>toString\<close> of its own.
\<close>

definition spec_join :: "jsstring list \<Rightarrow> jsstring" where
  "spec_join ss = (case ss of [] \<Rightarrow> [] | s # rest \<Rightarrow> s @ concat (map (\<lambda>t. 44 # t) rest))"

fun field_text :: "jsval \<Rightarrow> jsstring option" where
  "field_text JUndefined = Some []"
| "field_text JNull = Some []"
| "field_text (JBool b) = Some (if b then str ''true'' else str ''false'')"
| "field_text (JNum r) = Some r"
| "field_text (JStr s) = Some s"
| "field_text (JArr xs) = map_option spec_join (those (map field_text xs))"
| "field_text (JObj kvs) =
     (if str ''toString'' \<in> fst ` set kvs then None else Some (str ''[object Object]''))"

definition own_prop :: "jsval \<Rightarrow> jsstring \<Rightarrow> jsval" where
  "own_prop v k =
     (case v of
        JObj kvs \<Rightarrow> (case map_of kvs k of Some x \<Rightarrow> x | None \<Rightarrow> JUndefined)
      | _ \<Rightarrow> JUndefined)"


definition prop_text :: "jsval \<Rightarrow> jsstring \<Rightarrow> jsstring" where
  "prop_text item k = (case field_text (own_prop item k) of Some s \<Rightarrow> s | None \<Rightarrow> [])"

text \<open>
  The base-10 integer a string begins with: an optional sign, then decimal digits,
  read positionally.
\<close>

definition decimal_digits :: "code_unit list" where
  "decimal_digits = [48, 49, 50, 51, 52, 53, 54, 55, 56, 57]"

definition decimal :: "jsstring \<Rightarrow> int" where
  "decimal ds = (\<Sum>i<length ds. (ds ! i - 48) * 10 ^ (length ds - Suc i))"

definition leading_integer :: "jsstring \<Rightarrow> int option" where
  "leading_integer t =
     (let signed = (take 1 t = str ''-'' \<or> take 1 t = str ''+'');
          ds = takeWhile (\<lambda>c. c \<in> set decimal_digits) (if signed then drop 1 t else t)
      in if ds = [] then None
         else Some (if take 1 t = str ''-'' then - decimal ds else decimal ds))"

text \<open>
  The Number nearest to a positive integer. Below \<open>2 ^ 53\<close> every integer is a
  Number. From there on the Numbers around \<open>n\<close>, which has \<open>bitlen n\<close> binary digits,
  are the multiples of \<open>2 ^ (bitlen n - 53)\<close>: the nearer of the two neighbours is taken,
  and of two equally near the even multiple. The Numbers end below \<open>2 ^ 1024\<close>.
\<close>

definition nearest_number :: "int \<Rightarrow> int" where
  "nearest_number n =
     (if n < 2 ^ 53 then n
      else let u = 2 ^ (nat (bitlen n) - 53);
               lower = n - n mod u;
               upper = lower + u
           in if n - lower < upper - n then lower
              else if upper - n < n - lower then upper
              else if even (lower div u) then lower else upper)"

text \<open>
  The quantity a string coerces to: the Number nearest to the integer that the
  stripped string begins with, if that integer is greater than zero and the Number is
  finite.
\<close>

definition quantity_of :: "jsstring \<Rightarrow> int option" where
  "quantity_of s =
     (case leading_integer (strip s) of
        None \<Rightarrow> None
      | Some n \<Rightarrow>
          if 0 < n \<and> nearest_number n < 2 ^ 1024 then Some (nearest_number n) else None)"

text \<open>
  The code units that a normalised catalog number is without: the white space, the
  underscore (95) and the hyphen (45).
\<close>

definition separators :: "code_unit list" where
  "separators = white_space @ [95, 45]"

text \<open>
  The criterion of the specification for an item, and the line of an item that
  meets it.
\<close>

definition spec_survives :: "jsval \<Rightarrow> bool" where
  "spec_survives item =
     (\<not> blank (prop_text item (str ''brand'')) \<and>
      \<not> blank (prop_text item (str ''catalog_number'')) \<and>
      quantity_of (prop_text item (str ''quantity'')) \<noteq> None)"

definition spec_line :: "(jsstring \<Rightarrow> jsstring) \<Rightarrow> jsval \<Rightarrow> draft_line" where
  "spec_line toUpperCase item =
     \<lparr>brandInputUpper = toUpperCase (strip (prop_text item (str ''brand''))),
      catalogUpper = toUpperCase (strip (prop_text item (str ''catalog_number''))),
      normalizedCatalog =
        filter (\<lambda>c. c \<notin> set separators)
          (toUpperCase (strip (prop_text item (str ''catalog_number'')))),
      quantity = (case quantity_of (prop_text item (str ''quantity'')) of Some n \<Rightarrow> n | None \<Rightarrow> 0)\<rparr>"

text \<open>
  The inputs on which no conversion raises: \<open>stringable\<close> holds of a value
  that \<^verbatim>\<open>String\<close> converts, the other two say it of the fields that
  \<^verbatim>\<open>transformAiToDraft\<close> reads, and that neither the input nor an item is \<^verbatim>\<open>null\<close>.
\<close>

fun stringable :: "jsval \<Rightarrow> bool" where
  "stringable (JArr xs) = (\<forall>x \<in> set xs. stringable x)"
| "stringable (JObj kvs) = (str ''toString'' \<notin> fst ` set kvs)"
| "stringable v = True"

definition well_formed_item :: "jsval \<Rightarrow> bool" where
  "well_formed_item item =
     (\<not> nullish item \<and>
      stringable (own_prop item (str ''brand'')) \<and>
      stringable (own_prop item (str ''catalog_number'')) \<and>
      stringable (own_prop item (str ''quantity'')))"

definition well_formed_raw :: "jsval \<Rightarrow> bool" where
  "well_formed_raw ai =
     (\<not> nullish ai \<and>
      (\<forall>k \<in> set [str ''name'', str ''country'', str ''billing_address'', str ''contact_person'',
                  str ''contact_phone'', str ''contact_email''].
         stringable (own_prop (coalesce (own_prop ai (str ''customer'')) (JObj [])) k)) \<and>
      (\<forall>k \<in> set [str ''company_name'', str ''address'', str ''contact_person'', str ''phone'',
                  str ''email''].
         stringable (own_prop (coalesce (own_prop ai (str ''delivery'')) (JObj [])) k)) \<and>
      (\<forall>item \<in> set (items_of (own_prop ai (str ''items''))). well_formed_item item))"

text \<open>
  What the theorems assume of \<^verbatim>\<open>toUpperCase\<close>, two properties of the Unicode case
  conversion: a string that is not empty converts to one that is not empty, and on a
  string of ASCII code units the letters \<open>a\<close> to \<open>z\<close> (97 to 122) become \<open>A\<close> to \<open>Z\<close>
  and every other code unit stays.
\<close>

definition case_mapping :: "(jsstring \<Rightarrow> jsstring) \<Rightarrow> bool" where
  "case_mapping toUpperCase =
     ((\<forall>s. toUpperCase s = [] \<longrightarrow> s = []) \<and>
      (\<forall>s. (\<forall>c \<in> set s. 0 \<le> c \<and> c < 128) \<longrightarrow>
           toUpperCase s = map (\<lambda>c. if 97 \<le> c \<and> c \<le> 122 then c - 32 else c) s))"

text \<open>
  The end-to-end scenario of the specification, with four more items whose quantities
  are \<open>0\<close>, \<open>-3\<close>, \<open>abc\<close> and absent, and one whose quantity is \<open>7\<close>.
\<close>

definition example_item :: "jsval \<Rightarrow> jsval" where
  "example_item q =
     JObj [(str ''brand'', JStr (str ''abc co'')), (str ''catalog_number'', JStr (str ''xy-100'')),
           (str ''quantity'', q)]"

definition example_raw :: jsval where
  "example_raw =
     JObj [(str ''customer'', JObj [(str ''name'', JStr (str ''Acme'')), (str ''country'', JNull)]),
           (str ''items'', JArr [example_item (JStr (str ''5'')),
                             example_item (JStr (str ''0'')),
                             example_item (JStr (str ''-3'')),
                             example_item (JStr (str ''abc'')),
                             JObj [(str ''brand'', JStr (str ''abc co'')),
                                   (str ''catalog_number'', JStr (str ''xy-100''))],
                             example_item (JStr (str ''7''))])]"

definition example_line :: "int \<Rightarrow> draft_line" where
  "example_line n =
     \<lparr>brandInputUpper = str ''ABC CO'', catalogUpper = str ''XY-100'',
      normalizedCatalog = str ''XY100'', quantity = n\<rparr>"

definition example_draft :: draft where
  "example_draft =
     \<lparr>customer_name = str ''Acme'', customer_country = [],
      billing_address = None, contact_person = None, contact_phone = None,
      contact_email = None, delivery_company_name = None,
      delivery_address = None, delivery_contact_person = None,
      delivery_phone = None, delivery_email = None,
      lines = [example_line 5, example_line 7]\<rparr>"

section \<open>The relational store\<close>

text \<open>
  The store is an external service, reached through \<^verbatim>\<open>service.from(table)\<close>. It is
  modelled as a state: the six tables, rows in the order of their insertion, a counter
  for the identifiers it generates, and two schedules that say which of the coming
  insert and select requests fail (\<open>Some msg\<close>: the request fails with that message and
  changes no table; an exhausted schedule means no failure). An identifier is an opaque
  generated key, never empty, hence truthy.
\<close>

datatype ident = Ident nat

record alias_row =
  alias_key :: jsstring
  standard_brand :: "jsstring option"

record price_row =
  pl_id :: ident
  pl_brand :: jsstring
  pl_normalized_catalog_number :: jsstring

record inquiry_row =
  inq_user_id :: jsstring
  inq_status :: jsstring
  inq_customer_name :: jsstring
  inq_customer_country :: jsstring
  inq_billing_address :: "jsstring option"
  inq_contact_person :: "jsstring option"
  inq_contact_phone :: "jsstring option"
  inq_contact_email :: "jsstring option"

record inquiry_item_row =
  ii_inquiry_id :: ident
  ii_user_id :: jsstring
  ii_brand :: jsstring
  ii_catalog_number :: jsstring
  ii_normalized_catalog_number :: jsstring
  ii_quantity :: int

record template_meta =
  shipment_company_name :: jsstring
  shipment_address :: jsstring
  shipment_recipient :: jsstring
  shipment_phone :: jsstring
  shipment_email :: jsstring

record quotation_row =
  q_inquiry_id :: ident
  q_user_id :: jsstring
  q_status :: jsstring
  q_template_meta :: template_meta

record quotation_item_row =
  qi_quotation_id :: ident
  qi_inquiry_item_id :: ident
  qi_user_id :: jsstring
  qi_brand :: jsstring
  qi_catalog_number :: jsstring
  qi_normalized_catalog_number :: jsstring
  qi_quantity :: int
  qi_price_list_id :: "ident option"
  qi_match_status :: jsstring
  qi_brand_input :: jsstring
  qi_brand_standard :: jsstring

record store =
  brand_alias :: "alias_row list"
  price_list :: "price_row list"
  inquiries :: "(ident \<times> inquiry_row) list"
  inquiry_items :: "(ident \<times> inquiry_item_row) list"
  quotations :: "(ident \<times> quotation_row) list"
  quotation_items :: "(ident \<times> quotation_item_row) list"
  next_id :: nat
  insert_faults :: "jsstring option list"
  select_faults :: "jsstring option list"

text \<open>The \<^verbatim>\<open>{ data, error }\<close> that every request resolves to.\<close>

record 'a response =
  data :: "'a option"
  error :: "jsstring option"

definition take_fault :: "jsstring option list \<Rightarrow> jsstring option \<times> jsstring option list" where
  "take_fault fs = (case fs of [] \<Rightarrow> (None, []) | f # fs' \<Rightarrow> (f, fs'))"

text \<open>
  Modelled from the spec: the store's insert-with-returned-identifier
  (\<^verbatim>\<open>.insert(row).select("id").single()\<close>), one definition for each table. A failed
  insert adds no row.
\<close>

definition insert_inquiry :: "inquiry_row \<Rightarrow> store \<Rightarrow> ident response \<times> store" where
  "insert_inquiry row st =
     (case take_fault (insert_faults st) of
        (Some msg, fs) \<Rightarrow> (\<lparr>data = None, error = Some msg\<rparr>, st\<lparr>insert_faults := fs\<rparr>)
      | (None, fs) \<Rightarrow>
          (\<lparr>data = Some (Ident (next_id st)), error = None\<rparr>,
           st\<lparr>inquiries := inquiries st @ [(Ident (next_id st), row)],
              next_id := Suc (next_id st), insert_faults := fs\<rparr>))"

definition insert_inquiry_item :: "inquiry_item_row \<Rightarrow> store \<Rightarrow> ident response \<times> store" where
  "insert_inquiry_item row st =
     (case take_fault (insert_faults st) of
        (Some msg, fs) \<Rightarrow> (\<lparr>data = None, error = Some msg\<rparr>, st\<lparr>insert_faults := fs\<rparr>)
      | (None, fs) \<Rightarrow>
          (\<lparr>data = Some (Ident (next_id st)), error = None\<rparr>,
           st\<lparr>inquiry_items := inquiry_items st @ [(Ident (next_id st), row)],
              next_id := Suc (next_id st), insert_faults := fs\<rparr>))"

definition insert_quotation :: "quotation_row \<Rightarrow> store \<Rightarrow> ident response \<times> store" where
  "insert_quotation row st =
     (case take_fault (insert_faults st) of
        (Some msg, fs) \<Rightarrow> (\<lparr>data = None, error = Some msg\<rparr>, st\<lparr>insert_faults := fs\<rparr>)
      | (None, fs) \<Rightarrow>
          (\<lparr>data = Some (Ident (next_id st)), error = None\<rparr>,
           st\<lparr>quotations := quotations st @ [(Ident (next_id st), row)],
              next_id := Suc (next_id st), insert_faults := fs\<rparr>))"

text \<open>\<^verbatim>\<open>.insert(row)\<close> without \<^verbatim>\<open>.select\<close>: the response carries no data.\<close>

definition insert_quotation_item :: "quotation_item_row \<Rightarrow> store \<Rightarrow> ident response \<times> store" where
  "insert_quotation_item row st =
     (case take_fault (insert_faults st) of
        (Some msg, fs) \<Rightarrow> (\<lparr>data = None, error = Some msg\<rparr>, st\<lparr>insert_faults := fs\<rparr>)
      | (None, fs) \<Rightarrow>
          (\<lparr>data = None, error = None\<rparr>,
           st\<lparr>quotation_items := quotation_items st @ [(Ident (next_id st), row)],
              next_id := Suc (next_id st), insert_faults := fs\<rparr>))"

text \<open>
  Modelled from the spec: the point lookup of an alias,
  \<^verbatim>\<open>.select("standard_brand").eq("alias", a).limit(1).maybeSingle()\<close>. The data is the
  \<open>standard_brand\<close> column of the first matching row in the order of the store.
\<close>

definition select_brand_alias :: "jsstring \<Rightarrow> store \<Rightarrow> jsstring option response \<times> store" where
  "select_brand_alias a st =
     (case take_fault (select_faults st) of
        (Some msg, fs) \<Rightarrow> (\<lparr>data = None, error = Some msg\<rparr>, st\<lparr>select_faults := fs\<rparr>)
      | (None, fs) \<Rightarrow>
          (\<lparr>data = (case filter (\<lambda>r. alias_key r = a) (brand_alias st) of
                      [] \<Rightarrow> None
                    | r # _ \<Rightarrow> Some (standard_brand r)),
            error = None\<rparr>,
           st\<lparr>select_faults := fs\<rparr>))"

text \<open>
  Modelled from the spec: the lookup of a price-list entry,
  \<^verbatim>\<open>.select("id").eq("brand", b).eq("normalized_catalog_number", c).maybeSingle()\<close>.
  Without a limit, \<^verbatim>\<open>maybeSingle\<close> answers more than one matching row with an error
  and no data.
\<close>

definition select_price_list :: "jsstring \<Rightarrow> jsstring \<Rightarrow> store \<Rightarrow> ident response \<times> store" where
  "select_price_list b c st =
     (case take_fault (select_faults st) of
        (Some msg, fs) \<Rightarrow> (\<lparr>data = None, error = Some msg\<rparr>, st\<lparr>select_faults := fs\<rparr>)
      | (None, fs) \<Rightarrow>
          ((case filter (\<lambda>r. pl_brand r = b \<and> pl_normalized_catalog_number r = c) (price_list st) of
              [] \<Rightarrow> \<lparr>data = None, error = None\<rparr>
            | [r] \<Rightarrow> \<lparr>data = Some (pl_id r), error = None\<rparr>
            | _ \<Rightarrow> \<lparr>data = None,
                    error = Some (str ''JSON object requested, multiple (or no) rows returned'')\<rparr>),
           st\<lparr>select_faults := fs\<rparr>))"

section \<open>BrandResolver and PersistenceOrchestrator\<close>

text \<open>
  \<^verbatim>\<open>async function resolveBrand(service: any, brandInputUpper: string) {
    const { data } = await service.from("brand_alias") ... .maybeSingle();
    if (!data) return brandInputUpper;
    return text(data.standard_brand, brandInputUpper).toUpperCase(); }\<close>
  The column holds a string or \<^verbatim>\<open>null\<close>.
\<close>

definition resolveBrand :: "(jsstring \<Rightarrow> jsstring) \<Rightarrow> jsstring \<Rightarrow> store \<Rightarrow> (error + jsstring) \<times> store" where
  "resolveBrand toUpperCase input st =
     (case select_brand_alias input st of
        (resp, st1) \<Rightarrow>
          (case data resp of
             None \<Rightarrow> (Inr input, st1)
           | Some sb \<Rightarrow>
               (bindE (text_js (case sb of None \<Rightarrow> JNull | Some s \<Rightarrow> JStr s) input)
                  (\<lambda>b. Inr (toUpperCase b)),
                st1)))"

text \<open>\<^verbatim>\<open>process.env\<close>, as far as the program reads it.\<close>

record env =
  SUPABASE_URL :: "jsstring option"
  SUPABASE_SERVICE_ROLE_KEY :: "jsstring option"
  SANDBOX_OWNER_USER_ID :: "jsstring option"
  SANDBOX_ENDPOINT_TOKEN :: "jsstring option"

definition env_val :: "jsstring option \<Rightarrow> jsval" where
  "env_val v = (case v of None \<Rightarrow> JUndefined | Some s \<Rightarrow> JStr s)"

record saved =
  inquiryId :: ident
  quotationId :: ident

text \<open>An element of the array \<^verbatim>\<open>inquiryItems\<close>.\<close>

record saved_item =
  si_id :: ident
  si_brandInputUpper :: jsstring
  si_brandStandard :: jsstring
  si_catalogUpper :: jsstring
  si_normalizedCatalog :: jsstring
  si_quantity :: int

text \<open>\<^verbatim>\<open>err?.message || "unknown"\<close>\<close>

definition message_or_unknown :: "jsstring option \<Rightarrow> jsstring" where
  "message_or_unknown e = (case e of None \<Rightarrow> (str ''unknown'') | Some m \<Rightarrow> if m \<noteq> [] then m else (str ''unknown''))"

text \<open>
  The first loop of \<^verbatim>\<open>saveDraftToSupabase\<close>, \<^verbatim>\<open>for (const line of draft.lines)\<close>;
  \<open>acc\<close> is \<^verbatim>\<open>inquiryItems\<close>.
\<close>

fun insert_inquiry_items ::
  "(jsstring \<Rightarrow> jsstring) \<Rightarrow> jsstring \<Rightarrow> ident \<Rightarrow> draft_line list \<Rightarrow> saved_item list \<Rightarrow> store \<Rightarrow> (error + saved_item list) \<times> store" where
  "insert_inquiry_items toUpperCase userId inquiry [] acc st = (Inr acc, st)"
| "insert_inquiry_items toUpperCase userId inquiry (line # rest) acc st =
     (case resolveBrand toUpperCase (brandInputUpper line) st of
        (Inl e, st1) \<Rightarrow> (Inl e, st1)
      | (Inr brandStandard, st1) \<Rightarrow>
          (case insert_inquiry_item
                  \<lparr>ii_inquiry_id = inquiry,
                   ii_user_id = userId,
                   ii_brand = brandStandard,
                   ii_catalog_number = catalogUpper line,
                   ii_normalized_catalog_number = normalizedCatalog line,
                   ii_quantity = quantity line\<rparr> st1 of
             (resp, st2) \<Rightarrow>
               (case (error resp, data resp) of
                  (None, Some inquiryItem) \<Rightarrow>
                    insert_inquiry_items toUpperCase userId inquiry rest
                      (acc @ [\<lparr>si_id = inquiryItem,
                                si_brandInputUpper = brandInputUpper line,
                                si_brandStandard = brandStandard,
                                si_catalogUpper = catalogUpper line,
                                si_normalizedCatalog = normalizedCatalog line,
                                si_quantity = quantity line\<rparr>]) st2
                | _ \<Rightarrow>
                    (Inl (Error (str ''Create inquiry item failed: '' @ message_or_unknown (error resp))),
                     st2))))"

text \<open>The second loop, \<^verbatim>\<open>for (const item of inquiryItems)\<close>.\<close>

fun insert_quotation_items ::
  "jsstring \<Rightarrow> ident \<Rightarrow> saved_item list \<Rightarrow> store \<Rightarrow> (error + unit) \<times> store" where
  "insert_quotation_items userId quotation [] st = (Inr (), st)"
| "insert_quotation_items userId quotation (item # rest) st =
     (case select_price_list (si_brandStandard item) (si_normalizedCatalog item) st of
        (hit_resp, st1) \<Rightarrow>
          (let hit = data hit_resp in
           case insert_quotation_item
                  \<lparr>qi_quotation_id = quotation,
                   qi_inquiry_item_id = si_id item,
                   qi_user_id = userId,
                   qi_brand = si_brandStandard item,
                   qi_catalog_number = si_catalogUpper item,
                   qi_normalized_catalog_number = si_normalizedCatalog item,
                   qi_quantity = si_quantity item,
                   qi_price_list_id = hit,
                   qi_match_status = (case hit of Some h \<Rightarrow> (str ''matched'') | None \<Rightarrow> (str ''not_found'')),
                   qi_brand_input = si_brandInputUpper item,
                   qi_brand_standard = si_brandStandard item\<rparr> st1 of
             (resp, st2) \<Rightarrow>
               (case error resp of
                  Some msg \<Rightarrow> (Inl (Error (str ''Create quotation item failed: '' @ msg)), st2)
                | None \<Rightarrow> insert_quotation_items userId quotation rest st2)))"

text \<open>\<^verbatim>\<open>draft.delivery_company_name ?? ""\<close>\<close>

definition or_empty :: "jsstring option \<Rightarrow> jsstring" where
  "or_empty v = (case v of None \<Rightarrow> [] | Some s \<Rightarrow> s)"

text \<open>
  \<^verbatim>\<open>async function saveDraftToSupabase(draft)\<close>. A \<^verbatim>\<open>throw\<close> is \<open>Inl\<close>, returned with
  the store as the requests made so far have left it. \<^verbatim>\<open>createClient\<close> makes no
  request.
\<close>

definition saveDraftToSupabase ::
  "(jsstring \<Rightarrow> jsstring) \<Rightarrow> env \<Rightarrow> draft \<Rightarrow> store \<Rightarrow> (error + saved) \<times> store" where
  "saveDraftToSupabase toUpperCase env draft st =
     (case (text_js (env_val (SUPABASE_URL env)) [],
            text_js (env_val (SUPABASE_SERVICE_ROLE_KEY env)) [],
            text_js (env_val (SANDBOX_OWNER_USER_ID env)) []) of
        (Inr url, Inr key, Inr userId) \<Rightarrow>
          if url = [] \<or> key = [] \<or> userId = [] then
            (Inl (Error (str ''Missing SUPABASE_URL/SUPABASE_SERVICE_ROLE_KEY/SANDBOX_OWNER_USER_ID'')), st)
          else if lines draft = [] then
            (Inl (Error (str ''No valid lines to save.'')), st)
          else
            (case insert_inquiry
                    \<lparr>inq_user_id = userId,
                     inq_status = str ''draft'',
                     inq_customer_name = customer_name draft,
                     inq_customer_country = customer_country draft,
                     inq_billing_address = billing_address draft,
                     inq_contact_person = contact_person draft,
                     inq_contact_phone = contact_phone draft,
                     inq_contact_email = contact_email draft\<rparr> st of
               (resp, st1) \<Rightarrow>
                 (case (error resp, data resp) of
                    (None, Some inquiry) \<Rightarrow>
                      (case insert_inquiry_items toUpperCase userId inquiry (lines draft) [] st1 of
                         (Inl e, st2) \<Rightarrow> (Inl e, st2)
                       | (Inr inquiryItems, st2) \<Rightarrow>
                           (case insert_quotation
                                   \<lparr>q_inquiry_id = inquiry,
                                    q_user_id = userId,
                                    q_status = str ''draft'',
                                    q_template_meta =
                                      \<lparr>shipment_company_name = or_empty (delivery_company_name draft),
                                       shipment_address = or_empty (delivery_address draft),
                                       shipment_recipient = or_empty (delivery_contact_person draft),
                                       shipment_phone = or_empty (delivery_phone draft),
                                       shipment_email = or_empty (delivery_email draft)\<rparr>\<rparr> st2 of
                              (qresp, st3) \<Rightarrow>
                                (case (error qresp, data qresp) of
                                   (None, Some quotation) \<Rightarrow>
                                     (case insert_quotation_items userId quotation inquiryItems st3 of
                                        (Inl e, st4) \<Rightarrow> (Inl e, st4)
                                      | (Inr u, st4) \<Rightarrow>
                                          (Inr \<lparr>inquiryId = inquiry, quotationId = quotation\<rparr>, st4))
                                 | _ \<Rightarrow>
                                     (Inl (Error (str ''Create quotation failed: '' @
                                                  message_or_unknown (error qresp))), st3))))
                  | _ \<Rightarrow>
                      (Inl (Error (str ''Create inquiry failed: '' @ message_or_unknown (error resp))), st1)))
      | (Inl e, _) \<Rightarrow> (Inl e, st)
      | (_, Inl e, _) \<Rightarrow> (Inl e, st)
      | (_, _, Inl e) \<Rightarrow> (Inl e, st))"

section \<open>Expected outcomes, in the words of the specification\<close>

text \<open>
  What a successful alias lookup resolves a brand to: the input itself without a
  matching entry; otherwise the standard brand of the entry, trimmed and in upper case,
  or the input in upper case when that standard brand is \<^verbatim>\<open>null\<close> or blank.
\<close>

definition spec_resolve :: "(jsstring \<Rightarrow> jsstring) \<Rightarrow> alias_row list \<Rightarrow> jsstring \<Rightarrow> jsstring" where
  "spec_resolve toUpperCase tbl input =
     (case filter (\<lambda>r. alias_key r = input) tbl of
        [] \<Rightarrow> input
      | r # _ \<Rightarrow>
          (let v = strip (case standard_brand r of None \<Rightarrow> [] | Some s \<Rightarrow> s)
           in toUpperCase (if v \<noteq> [] then v else input)))"

text \<open>The entry that a successful price-list lookup reports.\<close>

definition spec_price_hit :: "price_row list \<Rightarrow> jsstring \<Rightarrow> jsstring \<Rightarrow> ident option" where
  "spec_price_hit pl b c =
     (case filter (\<lambda>r. pl_brand r = b \<and> pl_normalized_catalog_number r = c) pl of
        [r] \<Rightarrow> Some (pl_id r)
      | _ \<Rightarrow> None)"

text \<open>
  The inquiry items that the first loop has collected after it has inserted a row for
  each of the given lines: identifiers are handed out from \<open>n\<close> on, and the alias
  lookup of a line falls back to its input when the schedule \<open>sf\<close> lets it fail.
\<close>

fun saved_items ::
  "(jsstring \<Rightarrow> jsstring) \<Rightarrow> alias_row list \<Rightarrow> nat \<Rightarrow> jsstring option list \<Rightarrow> draft_line list \<Rightarrow> saved_item list" where
  "saved_items toUpperCase tbl n sf [] = []"
| "saved_items toUpperCase tbl n sf (l # ls) =
     \<lparr>si_id = Ident n,
      si_brandInputUpper = brandInputUpper l,
      si_brandStandard =
        (case sf of
           Some msg # _ \<Rightarrow> brandInputUpper l
         | _ \<Rightarrow> spec_resolve toUpperCase tbl (brandInputUpper l)),
      si_catalogUpper = catalogUpper l,
      si_normalizedCatalog = normalizedCatalog l,
      si_quantity = quantity l\<rparr> # saved_items toUpperCase tbl (Suc n) (tl sf) ls"

definition row_of :: "jsstring \<Rightarrow> ident \<Rightarrow> saved_item \<Rightarrow> ident \<times> inquiry_item_row" where
  "row_of userId inquiry item =
     (si_id item,
      \<lparr>ii_inquiry_id = inquiry,
       ii_user_id = userId,
       ii_brand = si_brandStandard item,
       ii_catalog_number = si_catalogUpper item,
       ii_normalized_catalog_number = si_normalizedCatalog item,
       ii_quantity = si_quantity item\<rparr>)"

text \<open>The quotation items that the second loop inserts for the given inquiry items.\<close>

fun quotation_rows ::
  "jsstring \<Rightarrow> ident \<Rightarrow> price_row list \<Rightarrow> nat \<Rightarrow> jsstring option list \<Rightarrow> saved_item list \<Rightarrow>
     (ident \<times> quotation_item_row) list" where
  "quotation_rows userId quotation pl n sf [] = []"
| "quotation_rows userId quotation pl n sf (item # items) =
     (let hit = (case sf of Some msg # _ \<Rightarrow> None
                 | _ \<Rightarrow> spec_price_hit pl (si_brandStandard item) (si_normalizedCatalog item))
      in (Ident n,
          \<lparr>qi_quotation_id = quotation,
           qi_inquiry_item_id = si_id item,
           qi_user_id = userId,
           qi_brand = si_brandStandard item,
           qi_catalog_number = si_catalogUpper item,
           qi_normalized_catalog_number = si_normalizedCatalog item,
           qi_quantity = si_quantity item,
           qi_price_list_id = hit,
           qi_match_status = (case hit of Some h \<Rightarrow> (str ''matched'') | None \<Rightarrow> (str ''not_found'')),
           qi_brand_input = si_brandInputUpper item,
           qi_brand_standard = si_brandStandard item\<rparr>))
     # quotation_rows userId quotation pl (Suc n) (tl sf) items"

text \<open>
  A setting of the environment, stripped, empty when it is not set; the three settings
  that \<^verbatim>\<open>saveDraftToSupabase\<close> requires are present; the owner of the rows.
\<close>

definition setting :: "jsstring option \<Rightarrow> jsstring" where
  "setting v = (case v of None \<Rightarrow> [] | Some s \<Rightarrow> strip s)"

definition configured :: "env \<Rightarrow> bool" where
  "configured env =
     (setting (SUPABASE_URL env) \<noteq> [] \<and>
      setting (SUPABASE_SERVICE_ROLE_KEY env) \<noteq> [] \<and>
      setting (SANDBOX_OWNER_USER_ID env) \<noteq> [])"

definition owner :: "env \<Rightarrow> jsstring" where
  "owner env = setting (SANDBOX_OWNER_USER_ID env)"

text \<open>The rows that \<^verbatim>\<open>saveDraftToSupabase\<close> writes for the inquiry and the quotation.\<close>

definition spec_inquiry_row :: "jsstring \<Rightarrow> draft \<Rightarrow> inquiry_row" where
  "spec_inquiry_row userId draft =
     \<lparr>inq_user_id = userId,
      inq_status = str ''draft'',
      inq_customer_name = customer_name draft,
      inq_customer_country = customer_country draft,
      inq_billing_address = billing_address draft,
      inq_contact_person = contact_person draft,
      inq_contact_phone = contact_phone draft,
      inq_contact_email = contact_email draft\<rparr>"

definition spec_quotation_row :: "jsstring \<Rightarrow> ident \<Rightarrow> draft \<Rightarrow> quotation_row" where
  "spec_quotation_row userId inquiry draft =
     \<lparr>q_inquiry_id = inquiry,
      q_user_id = userId,
      q_status = str ''draft'',
      q_template_meta =
        \<lparr>shipment_company_name = or_empty (delivery_company_name draft),
         shipment_address = or_empty (delivery_address draft),
         shipment_recipient = or_empty (delivery_contact_person draft),
         shipment_phone = or_empty (delivery_phone draft),
         shipment_email = or_empty (delivery_email draft)\<rparr>\<rparr>"

text \<open>A price-list lookup of the pair does not answer with the error for several rows.\<close>

definition price_lookup_ok :: "price_row list \<Rightarrow> jsstring \<Rightarrow> jsstring \<Rightarrow> bool" where
  "price_lookup_ok pl b c =
     (length (filter (\<lambda>r. pl_brand r = b \<and> pl_normalized_catalog_number r = c) pl) \<le> 1)"

text \<open>The next select request is scheduled to fail: the lookup errors.\<close>

definition next_select_fails :: "store \<Rightarrow> bool" where
  "next_select_fails st = (case select_faults st of Some msg # _ \<Rightarrow> True | _ \<Rightarrow> False)"

text \<open>
  A store for the examples: four aliases, one price-list entry, no request fails; and
  a draft of three lines, the second of which has no price-list entry.
\<close>

definition example_store :: store where
  "example_store =
     \<lparr>brand_alias = [\<lparr>alias_key = str ''ABCCO'', standard_brand = Some (str ''ABC CORP'')\<rparr>,
                     \<lparr>alias_key = str ''ABC CO'', standard_brand = Some (str ''  abc corp '')\<rparr>,
                     \<lparr>alias_key = str ''BLANK CO'', standard_brand = Some (str ''  '')\<rparr>,
                     \<lparr>alias_key = str ''nobrand'', standard_brand = None\<rparr>],
      price_list = [\<lparr>pl_id = Ident 1, pl_brand = str ''ABC CORP'', pl_normalized_catalog_number = str ''XY100''\<rparr>],
      inquiries = [], inquiry_items = [], quotations = [], quotation_items = [],
      next_id = 100, insert_faults = [], select_faults = []\<rparr>"

definition example_draft3 :: draft where
  "example_draft3 =
     example_draft\<lparr>lines :=
       [example_line 5,
        \<lparr>brandInputUpper = str ''UNKNOWN'', catalogUpper = str ''ZZ 9'',
         normalizedCatalog = str ''ZZ9'', quantity = 2\<rparr>,
        example_line 9]\<rparr>"

definition example_env :: env where
  "example_env =
     \<lparr>SUPABASE_URL = Some (str ''https://example.supabase.co''),
      SUPABASE_SERVICE_ROLE_KEY = Some (str ''key''),
      SANDBOX_OWNER_USER_ID = Some (str ''owner''),
      SANDBOX_ENDPOINT_TOKEN = None\<rparr>"

section \<open>The request handler\<close>

text \<open>
  The request as far as \<^verbatim>\<open>handler\<close> reads it: the method, the header
  \<^verbatim>\<open>x-sandbox-token\<close> and the body, which is a string when the platform has not
  parsed it.
\<close>

record request =
  req_method :: jsstring
  x_sandbox_token :: jsval
  req_body :: jsval

text \<open>What \<^verbatim>\<open>pullLatestEmail\<close> returns.\<close>

record mail =
  mail_uid :: nat
  mail_messageId :: jsstring
  mail_subject :: jsstring
  mail_subjectNorm :: jsstring
  mail_from :: jsstring
  mail_text :: jsstring
  mail_date :: jsstring

text \<open>What \<^verbatim>\<open>aiExtract\<close> returns.\<close>

record extraction =
  ai_model :: jsstring
  ai_json :: jsval
  ai_raw :: jsstring

text \<open>
  The mail server, the completion service and the JSON parser of the runtime are
  outside the program: an invocation is given what \<^verbatim>\<open>JSON.parse\<close> answers, and what
  \<^verbatim>\<open>pullLatestEmail()\<close> and \<^verbatim>\<open>aiExtract(...)\<close> resolve to or throw. Neither of the two
  functions has access to the store.
\<close>

record collaborators =
  JSON_parse :: "jsstring \<Rightarrow> error + jsval"
  pullLatestEmail :: "error + mail"
  aiExtract :: "jsstring \<Rightarrow> jsstring \<Rightarrow> jsstring \<Rightarrow> error + extraction"

text \<open>The body of the 200 response.\<close>

record mail_summary =
  ms_uid :: nat
  ms_messageId :: jsstring
  ms_subject :: jsstring
  ms_subjectNorm :: jsstring
  ms_from :: jsstring
  ms_textPreview :: jsstring

record result_body =
  ok_save :: bool
  ok_mail :: mail_summary
  ok_ai_model :: jsstring
  ok_ai_json :: jsval
  ok_transformed :: draft
  ok_saved :: "saved option"

text \<open>
  A response is a status with a body, \<open>Failure msg\<close> for
  \<^verbatim>\<open>{ ok: false, error: msg }\<close> (the \<^verbatim>\<open>details\<close> of the 500 body are left out). An
  exception outside the \<^verbatim>\<open>try\<close> block rejects the promise of the handler.
\<close>

datatype payload = Failure jsstring | Success result_body

datatype outcome = Response nat payload | Rejected error

text \<open>\<^verbatim>\<open>function unauthorized(req, res): boolean\<close>; on \<open>True\<close> it has sent the 401.\<close>

definition unauthorized :: "env \<Rightarrow> request \<Rightarrow> error + bool" where
  "unauthorized env req =
     bindE (text_js (env_val (SANDBOX_ENDPOINT_TOKEN env)) []) (\<lambda>token.
       if token = [] then Inr False
       else bindE (text_js (x_sandbox_token req) []) (\<lambda>got.
         if got = token then Inr False else Inr True))"

text \<open>\<^verbatim>\<open>err?.message || String(err)\<close>\<close>

definition error_text :: "error \<Rightarrow> jsstring" where
  "error_text e =
     (case e of
        Error m \<Rightarrow> if m \<noteq> [] then m else (str ''Error'')
      | TypeError m \<Rightarrow> if m \<noteq> [] then m else (str ''TypeError''))"

text \<open>
  The \<^verbatim>\<open>try\<close> block of \<^verbatim>\<open>handler\<close>, up to the 200 response. The persistence step
  is a parameter, so that a result can be shown not to depend on it.
\<close>

definition pipeline ::
  "(jsstring \<Rightarrow> jsstring) \<Rightarrow> (env \<Rightarrow> draft \<Rightarrow> store \<Rightarrow> (error + saved) \<times> store) \<Rightarrow>
     collaborators \<Rightarrow> env \<Rightarrow> request \<Rightarrow> store \<Rightarrow> (error + result_body) \<times> store" where
  "pipeline toUpperCase persist ext env req st =
     (case (case req_body req of
              JStr s \<Rightarrow> JSON_parse ext s
            | b \<Rightarrow> Inr (coalesce b (JObj []))) of
        Inl e \<Rightarrow> (Inl e, st)
      | Inr body \<Rightarrow>
     (case (if nullish body then Inr JUndefined else js_get body (str ''save'')) of
        Inl e \<Rightarrow> (Inl e, st)
      | Inr flag \<Rightarrow>
     (let save = js_Boolean flag in
      case pullLatestEmail ext of
        Inl e \<Rightarrow> (Inl e, st)
      | Inr mail \<Rightarrow>
     (case aiExtract ext (mail_subject mail) (mail_from mail) (mail_text mail) of
        Inl e \<Rightarrow> (Inl e, st)
      | Inr ai \<Rightarrow>
     (case transformAiToDraft toUpperCase (ai_json ai) of
        Inl e \<Rightarrow> (Inl e, st)
      | Inr draft \<Rightarrow>
     (case (if save
            then (case persist env draft st of
                    (Inl e, st') \<Rightarrow> (Inl e, st')
                  | (Inr s, st') \<Rightarrow> (Inr (Some s), st'))
            else (Inr None, st)) of
        (Inl e, st') \<Rightarrow> (Inl e, st')
      | (Inr saved, st') \<Rightarrow>
          (Inr \<lparr>ok_save = save,
                ok_mail =
                  \<lparr>ms_uid = mail_uid mail,
                   ms_messageId = mail_messageId mail,
                   ms_subject = mail_subject mail,
                   ms_subjectNorm = mail_subjectNorm mail,
                   ms_from = mail_from mail,
                   ms_textPreview = take 800 (mail_text mail)\<rparr>,
                ok_ai_model = ai_model ai,
                ok_ai_json = ai_json ai,
                ok_transformed = draft,
                ok_saved = saved\<rparr>, st')))))))"

text \<open>\<^verbatim>\<open>export default async function handler(req, res)\<close>\<close>

definition handler_with ::
  "(jsstring \<Rightarrow> jsstring) \<Rightarrow> (env \<Rightarrow> draft \<Rightarrow> store \<Rightarrow> (error + saved) \<times> store) \<Rightarrow>
     collaborators \<Rightarrow> env \<Rightarrow> request \<Rightarrow> store \<Rightarrow> outcome \<times> store" where
  "handler_with toUpperCase persist ext env req st =
     (if req_method req \<noteq> (str ''POST'') then (Response 405 (Failure (str ''Method not allowed'')), st)
      else case unauthorized env req of
        Inl e \<Rightarrow> (Rejected e, st)
      | Inr True \<Rightarrow> (Response 401 (Failure (str ''Unauthorized'')), st)
      | Inr False \<Rightarrow>
          (case pipeline toUpperCase persist ext env req st of
             (Inr body, st') \<Rightarrow> (Response 200 (Success body), st')
           | (Inl err, st') \<Rightarrow> (Response 500 (Failure (error_text err)), st')))"

definition handler ::
  "(jsstring \<Rightarrow> jsstring) \<Rightarrow> collaborators \<Rightarrow> env \<Rightarrow> request \<Rightarrow> store \<Rightarrow> outcome \<times> store" where
  "handler toUpperCase = handler_with toUpperCase (saveDraftToSupabase toUpperCase)"

text \<open>\<^verbatim>\<open>Boolean(body?.save)\<close>, the save flag of a request, if its body parses.\<close>

definition save_flag :: "collaborators \<Rightarrow> request \<Rightarrow> error + bool" where
  "save_flag ext req =
     bindE (case req_body req of JStr s \<Rightarrow> JSON_parse ext s | b \<Rightarrow> Inr (coalesce b (JObj [])))
       (\<lambda>body. bindE (if nullish body then Inr JUndefined else js_get body (str ''save''))
          (\<lambda>flag. Inr (js_Boolean flag)))"

definition summary :: "mail \<Rightarrow> mail_summary" where
  "summary m =
     \<lparr>ms_uid = mail_uid m,
      ms_messageId = mail_messageId m,
      ms_subject = mail_subject m,
      ms_subjectNorm = mail_subjectNorm m,
      ms_from = mail_from m,
      ms_textPreview = take 800 (mail_text m)\<rparr>"

text \<open>An invocation for the examples: the scenario's extraction, no save flag.\<close>

definition example_mail :: mail where
  "example_mail =
     \<lparr>mail_uid = 7, mail_messageId = str ''<1@example.org>'', mail_subject = str ''Inquiry'',
      mail_subjectNorm = str ''inquiry'', mail_from = str ''buyer@example.org'',
      mail_text = str ''Please quote 5 x abc co xy-100'', mail_date = str ''2024-01-01T00:00:00.000Z''\<rparr>"

definition example_ext :: collaborators where
  "example_ext =
     \<lparr>JSON_parse = (\<lambda>s. Inl (Error (str ''Unexpected token''))),
      pullLatestEmail = Inr example_mail,
      aiExtract = (\<lambda>subject sender body.
        Inr \<lparr>ai_model = str ''gpt-4o-mini'', ai_json = example_raw, ai_raw = []\<rparr>)\<rparr>"

definition example_request :: "jsval \<Rightarrow> request" where
  "example_request body = \<lparr>req_method = str ''POST'', x_sandbox_token = JUndefined, req_body = body\<rparr>"

section \<open>White space and coercion\<close>

lemma is_space_white: "is_space c \<longleftrightarrow> c \<in> set white_space"
  unfolding is_space_def white_space_def by (simp del: One_nat_def) arith

lemma is_digit_decimal: "is_digit c \<longleftrightarrow> c \<in> set decimal_digits"
  unfolding is_digit_def decimal_digits_def by simp arith

lemma is_sep_separators: "is_sep c \<longleftrightarrow> c \<in> set separators"
  unfolding is_sep_def separators_def is_space_white by auto

lemma is_space_eq: "is_space = (\<lambda>c. c \<in> set white_space)"
  by (rule ext) (rule is_space_white)

lemma trim_strip: "trim s = strip s"
  unfolding trim_def strip_def Let_def is_space_eq
  by (simp add: dropWhile_eq_drop [of _ "rev _"] rev_drop)

lemma all_dropWhile: "(\<forall>x \<in> set (dropWhile P s). P x) \<longleftrightarrow> (\<forall>x \<in> set s. P x)"
  by (induction s) auto

lemma blank_strip: "blank s \<longleftrightarrow> strip s = []"
  unfolding trim_strip [symmetric] trim_def blank_def is_space_eq
  by (simp add: dropWhile_eq_Nil_conv all_dropWhile)

lemma intercalate_join: "intercalate (str '','') ss = spec_join ss"
  by (induction "str '',''" ss rule: intercalate.induct) (simp_all add: spec_join_def str_def)

lemma sequenceE_those:
  "(\<And>x. x \<in> set xs \<Longrightarrow> f x = (case g x of Some s \<Rightarrow> Inr s | None \<Rightarrow> Inl e)) \<Longrightarrow>
     sequenceE (map f xs) = (case those (map g xs) of Some ss \<Rightarrow> Inr ss | None \<Rightarrow> Inl e)"
  by (induction xs) (auto split: option.splits)

lemma js_String_element:
  "(case v of JUndefined \<Rightarrow> Inr [] | JNull \<Rightarrow> Inr [] | _ \<Rightarrow> js_String v)
     = (case field_text v of
          Some s \<Rightarrow> Inr s
        | None \<Rightarrow> Inl (TypeError (str ''Cannot convert object to primitive value'')))"
proof (induction v)
  case (JArr xs)
  have "sequenceE (map (\<lambda>x. case x of JUndefined \<Rightarrow> Inr [] | JNull \<Rightarrow> Inr [] | _ \<Rightarrow> js_String x) xs)
      = (case those (map field_text xs) of
           Some ss \<Rightarrow> Inr ss
         | None \<Rightarrow> Inl (TypeError (str ''Cannot convert object to primitive value'')))"
    by (rule sequenceE_those) (rule JArr)
  then show ?case by (simp add: intercalate_join split: option.splits)
qed simp_all

lemma js_String_field_text:
  "js_String (coalesce v (JStr []))
     = (case field_text v of
          Some s \<Rightarrow> Inr s
        | None \<Rightarrow> Inl (TypeError (str ''Cannot convert object to primitive value'')))"
  using js_String_element [of v] by (cases v) (simp_all add: coalesce_def nullish_def)

lemma those_None: "those xs = None \<longleftrightarrow> None \<in> set xs"
  by (induction xs) (auto split: option.splits)

lemma stringable_field_text: "stringable v \<longleftrightarrow> field_text v \<noteq> None"
proof (induction v)
  case (JArr xs)
  then have "(\<forall>x \<in> set xs. stringable x) \<longleftrightarrow> None \<notin> field_text ` set xs"
    by (auto simp: image_iff) (metis not_None_eq)
  then show ?case by (simp add: those_None)
qed simp_all

lemma text_js_eq:
  "text_js v fb
     = (case field_text v of
          Some s \<Rightarrow> Inr (if blank s then fb else strip s)
        | None \<Rightarrow> Inl (TypeError (str ''Cannot convert object to primitive value'')))"
  by (simp add: text_js_def js_String_field_text bindE_def Let_def trim_strip blank_strip
      split: option.splits)

lemma maybeText_eq:
  "maybeText v
     = (case field_text v of
          Some s \<Rightarrow> Inr (if blank s then None else Some (strip s))
        | None \<Rightarrow> Inl (TypeError (str ''Cannot convert object to primitive value'')))"
  by (simp add: maybeText_def js_String_field_text bindE_def Let_def trim_strip blank_strip
      split: option.splits)

lemma strip_no_leading_space: "dropWhile is_space (strip s) = strip s"
proof (cases "strip s")
  case Nil
  then show ?thesis by simp
next
  case (Cons c cs)
  let ?t = "dropWhile (\<lambda>c. c \<in> set white_space) s"
  have "t \<noteq> [] \<and> c = hd t" if "take n t = c # cs" for n and t :: jsstring
    using that by (cases t; cases n) auto
  with Cons have t: "?t \<noteq> []" and c: "c = hd ?t"
    unfolding strip_def Let_def by blast+
  from t have "\<not> hd ?t \<in> set white_space" by (rule hd_dropWhile)
  with c Cons show ?thesis by (simp add: is_space_white)
qed

section \<open>Numbers\<close>

lemma bit_length_bound: "0 < m \<Longrightarrow> 2 ^ (bit_length m - 1) \<le> m"
proof (induction m rule: bit_length.induct)
  case (1 n)
  from 1(2) have bl: "bit_length n = Suc (bit_length (n div 2))"
    by (subst bit_length.simps) simp
  show ?case
  proof (cases "n div 2 \<le> 0")
    case True
    then have "bit_length (n div 2) = 0" by (subst bit_length.simps) simp
    with bl 1(2) show ?thesis by simp
  next
    case False
    with 1 have ih: "2 ^ (bit_length (n div 2) - 1) \<le> n div 2" by simp
    from False have "0 < bit_length (n div 2)"
      by (subst bit_length.simps) simp
    then have "(2::int) ^ bit_length (n div 2) = 2 * 2 ^ (bit_length (n div 2) - 1)"
      by (cases "bit_length (n div 2)") simp_all
    with ih have "2 ^ bit_length (n div 2) \<le> 2 * (n div 2)" by simp
    also have "\<dots> \<le> n" by simp
    finally show ?thesis by (simp add: bl)
  qed
qed

lemma round_f64_pos: "0 < m \<Longrightarrow> 0 < round_f64 m"
proof -
  assume m: "0 < m"
  show ?thesis
  proof (cases "m < 2 ^ 53")
    case True
    with m show ?thesis by (simp add: round_f64_def)
  next
    case False
    define e where "e = bit_length m - 53"
    define q where "q = m div 2 ^ e"
    have "(2::int) ^ e \<le> 2 ^ (bit_length m - 1)"
      by (rule power_increasing) (simp_all add: e_def)
    from this bit_length_bound [OF m] have "2 ^ e \<le> m" by (rule order_trans)
    then have "2 ^ e div 2 ^ e \<le> m div (2::int) ^ e"
      by (rule zdiv_mono1) simp
    then have "1 \<le> q" by (simp add: q_def)
    then have "0 < (if c then q + 1 else q) * 2 ^ e" for c by simp
    moreover from False have "round_f64 m =
        (if 2 ^ (e - 1) < m mod 2 ^ e \<or> (m mod 2 ^ e = 2 ^ (e - 1) \<and> odd q) then q + 1 else q) * 2 ^ e"
      unfolding round_f64_def Let_def e_def q_def by (simp only: if_False)
    ultimately show ?thesis by (simp only:)
  qed
qed

lemma round_f64_nonneg: "0 \<le> m \<Longrightarrow> 0 \<le> round_f64 m"
  using round_f64_pos [of m] by (cases "m = 0") (simp_all add: round_f64_def)

lemma bit_length_upper: "n < 2 ^ bit_length n"
proof (induction n rule: bit_length.induct)
  case (1 n)
  show ?case
  proof (cases "n \<le> 0")
    case True
    then have "bit_length n = 0" by (subst bit_length.simps) simp
    with True show ?thesis by simp
  next
    case False
    then have bl: "bit_length n = Suc (bit_length (n div 2))"
      by (subst bit_length.simps) simp
    from False 1 have "n div 2 < 2 ^ bit_length (n div 2)" by simp
    then have "2 * (n div 2) + 2 \<le> 2 * 2 ^ bit_length (n div 2)" by simp
    moreover have "n \<le> 2 * (n div 2) + 1" by simp
    ultimately show ?thesis by (simp add: bl)
  qed
qed

lemma bit_length_bitlen: "bit_length n = nat (bitlen n)"
proof (induction n rule: bit_length.induct)
  case (1 n)
  show ?case
  proof (cases "n \<le> 0")
    case True
    then have "bit_length n = 0" by (subst bit_length.simps) simp
    moreover from True have "bitlen n = 0" by (subst compute_bitlen) simp
    ultimately show ?thesis by simp
  next
    case False
    then have bl: "bit_length n = Suc (bit_length (n div 2))"
      by (subst bit_length.simps) simp
    from False have "bitlen n = bitlen (n div 2) + 1" by (subst compute_bitlen) simp
    with False 1 bl bitlen_nonneg [of "n div 2"] show ?thesis by (simp add: nat_add_distrib)
  qed
qed

lemma round_f64_nearest: "round_f64 n = nearest_number n"
proof (cases "n < 2 ^ 53")
  case True
  then show ?thesis by (simp add: round_f64_def nearest_number_def)
next
  case False
  define e where "e = bit_length n - 53"
  define h :: int where "h = 2 ^ (e - 1)"
  define q where "q = n div (2 * h)"
  define r where "r = n mod (2 * h)"
  have "53 < bit_length n"
  proof (rule ccontr)
    assume "\<not> 53 < bit_length n"
    then have "(2::int) ^ bit_length n \<le> 2 ^ 53" by (intro power_increasing) simp_all
    with False bit_length_upper [of n] show False by linarith
  qed
  then have e1: "1 \<le> e" by (simp add: e_def)
  then have u: "(2::int) ^ e = 2 * h" unfolding h_def by (cases e) simp_all
  have hpos: "0 < h" by (simp add: h_def)
  have n: "n - r = q * (2 * h)" unfolding q_def r_def by (simp add: minus_mod_eq_div_mult)
  have ldiv: "(q * (2 * h)) div (2 * h) = q" using hpos by simp
  have rf: "round_f64 n = (if h < r \<or> (r = h \<and> odd q) then q + 1 else q) * (2 * h)"
    using False unfolding round_f64_def Let_def e_def [symmetric] u h_def [symmetric]
      q_def [symmetric] r_def [symmetric]
    by (simp only: if_False)
  have nn: "nearest_number n =
      (if n - (n - r) < n - r + 2 * h - n then n - r
       else if n - r + 2 * h - n < n - (n - r) then n - r + 2 * h
       else if even ((n - r) div (2 * h)) then n - r else n - r + 2 * h)"
    using False unfolding nearest_number_def Let_def bit_length_bitlen [symmetric]
      e_def [symmetric] u r_def [symmetric]
    by (simp only: if_False)
  have c: "n - (n - r) < n - r + 2 * h - n \<longleftrightarrow> r < h"
    "n - r + 2 * h - n < n - (n - r) \<longleftrightarrow> h < r"
    by auto
  show ?thesis
    unfolding rf nn c unfolding n ldiv
    by (auto simp: algebra_simps)
qed

lemma nearest_number_pos: "0 < m \<Longrightarrow> 0 < nearest_number m"
  using round_f64_pos [of m] by (simp add: round_f64_nearest)

lemma digits_val_snoc: "digits_val (ds @ [d]) = 10 * digits_val ds + digit_val d"
  by (simp add: digits_val_def)

lemma decimal_snoc: "decimal (ds @ [d]) = 10 * decimal ds + (d - 48)"
proof -
  have "(\<Sum>i<length ds. ((ds @ [d]) ! i - 48) * 10 ^ (length ds - i))
      = (\<Sum>i<length ds. 10 * ((ds ! i - 48) * 10 ^ (length ds - Suc i)))"
  proof (rule sum.cong)
    fix i assume "i \<in> {..<length ds}"
    then have i: "i < length ds" by simp
    then have "length ds - i = Suc (length ds - Suc i)" by simp
    with i show "((ds @ [d]) ! i - 48) * 10 ^ (length ds - i)
        = 10 * ((ds ! i - 48) * 10 ^ (length ds - Suc i))"
      by (simp add: nth_append)
  qed simp
  then show ?thesis
    by (simp add: decimal_def sum_distrib_left)
qed

lemma digits_val_decimal: "digits_val ds = decimal ds"
proof (induction ds rule: rev_induct)
  case Nil
  show ?case by (simp add: digits_val_def decimal_def)
next
  case (snoc d ds)
  then show ?case by (simp add: digits_val_snoc decimal_snoc digit_val_def)
qed

lemma decimal_nonneg: "\<forall>c \<in> set ds. c \<in> set decimal_digits \<Longrightarrow> 0 \<le> decimal ds"
  unfolding decimal_def
  by (rule sum_nonneg) (auto simp: is_digit_decimal [symmetric] is_digit_def dest!: nth_mem [of _ ds])

lemma is_digit_eq: "is_digit = (\<lambda>c. c \<in> set decimal_digits)"
  by (rule ext) (rule is_digit_decimal)

lemma takeWhile_digits_nonneg: "0 \<le> decimal (takeWhile (\<lambda>c. c \<in> set decimal_digits) s)"
  by (rule decimal_nonneg) (auto dest: set_takeWhileD)

text \<open>What \<open>asQty\<close> makes of the string that \<^verbatim>\<open>String\<close> returns.\<close>

lemma parseInt10_quantity:
  "(case parseInt10 (trim s) of Num n \<Rightarrow> if 0 < n then Some n else None | _ \<Rightarrow> None)
     = quantity_of s"
proof -
  define t where "t = strip s"
  have d: "dropWhile is_space t = t" unfolding t_def by (rule strip_no_leading_space)
  let ?D = "\<lambda>c. c \<in> set decimal_digits"
  have n: "(case to_Number True m of Num n \<Rightarrow> if 0 < n then Some n else None | _ \<Rightarrow> None) = None"
    if "0 \<le> m" for m
    using round_f64_nonneg [OF that] by (simp add: to_Number_def Let_def)
  have p: "(case to_Number False m of Num n \<Rightarrow> if 0 < n then Some n else None | _ \<Rightarrow> None)
      = (if 0 < m \<and> nearest_number m < 2 ^ 1024 then Some (nearest_number m) else None)"
    if "0 \<le> m" for m
    using nearest_number_pos [of m] that
    by (cases "m = 0") (simp_all add: to_Number_def Let_def round_f64_nearest nearest_number_def)
  have "(case parseInt10 t of Num n \<Rightarrow> if 0 < n then Some n else None | _ \<Rightarrow> None)
      = (case leading_integer t of
           None \<Rightarrow> None
         | Some n \<Rightarrow> if 0 < n \<and> nearest_number n < 2 ^ 1024 then Some (nearest_number n) else None)"
  proof (cases t)
    case Nil
    then show ?thesis by (simp add: parseInt10_def leading_integer_def str_def)
  next
    case (Cons c cs)
    consider "c = 45" | "c = 43" | "c \<noteq> 45" "c \<noteq> 43" by blast
    then show ?thesis
    proof cases
      case 1
      with Cons d n [OF takeWhile_digits_nonneg [of cs]] takeWhile_digits_nonneg [of cs]
      show ?thesis
        by (simp add: parseInt10_def leading_integer_def str_def Let_def is_digit_eq
            digits_val_decimal)
    next
      case 2
      with Cons d p [OF takeWhile_digits_nonneg [of cs]]
      show ?thesis
        by (simp add: parseInt10_def leading_integer_def str_def Let_def is_digit_eq
            digits_val_decimal)
    next
      case 3
      with Cons d p [OF takeWhile_digits_nonneg [of "c # cs"]]
      show ?thesis
        by (simp add: parseInt10_def leading_integer_def str_def Let_def is_digit_eq
            digits_val_decimal del: takeWhile.simps)
    qed
  qed
  then show ?thesis by (simp add: quantity_of_def t_def trim_strip)
qed

lemma asQty_eq:
  "asQty v
     = (case field_text v of
          Some s \<Rightarrow> Inr (quantity_of s)
        | None \<Rightarrow> Inl (TypeError (str ''Cannot convert object to primitive value'')))"
  by (simp add: asQty_def js_String_field_text bindE_def parseInt10_quantity split: option.splits)

section \<open>Catalog normalisation\<close>

lemma replace_runs_filter: "replace_runs s = filter (\<lambda>c. \<not> is_sep c) s"
proof (induction s rule: replace_runs.induct)
  case 1
  show ?case by simp
next
  case (2 c cs)
  show ?case
  proof (cases "is_sep c")
    case True
    have "filter (\<lambda>c. \<not> is_sep c) (dropWhile is_sep cs) = filter (\<lambda>c. \<not> is_sep c) cs"
      by (induction cs) auto
    with True 2 show ?thesis by simp
  next
    case False
    with 2 show ?thesis by simp
  qed
qed

lemma normalizeCatalog_filter:
  "normalizeCatalog U s = filter (\<lambda>c. c \<notin> set separators) (U s)"
  by (simp add: normalizeCatalog_def replace_runs_filter is_sep_separators)

lemma case_mapping_ascii: "case_mapping ascii_toUpperCase"
  by (simp add: case_mapping_def ascii_toUpperCase_def ascii_upper_def)

lemma case_mapping_Nil: "case_mapping U \<Longrightarrow> U s = [] \<longleftrightarrow> s = []"
proof -
  assume u: "case_mapping U"
  then have "(\<forall>c \<in> set ([] :: jsstring). 0 \<le> c \<and> c < 128) \<longrightarrow>
      U [] = map (\<lambda>c. if 97 \<le> c \<and> c \<le> 122 then c - 32 else c) []"
    unfolding case_mapping_def by blast
  then have "U [] = []" by simp
  with u show ?thesis unfolding case_mapping_def by blast
qed

lemma ascii_upper_separator:
  "0 \<le> c \<Longrightarrow> c < 128 \<Longrightarrow>
     (if 97 \<le> c \<and> c \<le> 122 then c - 32 else c) \<in> set separators \<longleftrightarrow> c \<in> set separators"
  by (simp add: separators_def white_space_def)

lemma case_mapping_commute:
  assumes "case_mapping U" "\<forall>c \<in> set s. 0 \<le> c \<and> c < 128"
  shows "filter (\<lambda>c. c \<notin> set separators) (U s) = U (filter (\<lambda>c. c \<notin> set separators) s)"
proof -
  define up :: "int \<Rightarrow> int" where "up = (\<lambda>c. if 97 \<le> c \<and> c \<le> 122 then c - 32 else c)"
  have u: "U t = map up t" if "\<forall>c \<in> set t. 0 \<le> c \<and> c < 128" for t
    using assms(1) that unfolding case_mapping_def up_def by blast
  have 1: "U s = map up s" using assms(2) by (rule u)
  have 2: "U (filter (\<lambda>c. c \<notin> set separators) s) = map up (filter (\<lambda>c. c \<notin> set separators) s)"
    using assms(2) by (intro u) simp
  have "filter ((\<lambda>c. c \<notin> set separators) \<circ> up) s = filter (\<lambda>c. c \<notin> set separators) s"
  proof (rule filter_cong [OF refl])
    fix c assume "c \<in> set s"
    with assms(2) have "0 \<le> c" "c < 128" by auto
    then show "((\<lambda>c. c \<notin> set separators) \<circ> up) c = (c \<notin> set separators)"
      using ascii_upper_separator [of c] by (simp add: up_def)
  qed
  then show ?thesis unfolding 1 2 by (simp add: filter_map)
qed

lemma normalizeCatalog_ascii:
  assumes "case_mapping U" "\<forall>c \<in> set s. 0 \<le> c \<and> c < 128"
  shows "normalizeCatalog U s = normalizeCatalog ascii_toUpperCase s"
proof -
  from assms have "U s = ascii_toUpperCase s"
    unfolding case_mapping_def ascii_toUpperCase_def ascii_upper_def by blast
  then show ?thesis by (simp add: normalizeCatalog_def)
qed

text \<open>
  C7. For every string, \<open>normalizeCatalog\<close> returns the upper-cased string without its
  white space, underscores and hyphens, the white space being every code unit that
  ECMAScript counts as such; on a string of ASCII code units it makes no difference
  whether they are removed before the case conversion or after it; and \<open>abc-123_45\<close>
  and \<open>ABC12345\<close> both normalise to \<open>ABC12345\<close>, as does a string with spaces, a
  tabulator and a line feed among the separators.
\<close>

theorem normalizeCatalog_upper_without_separators:
  "normalizeCatalog U s = filter (\<lambda>c. c \<notin> set separators) (U s)
   \<and> (case_mapping U \<longrightarrow>
        ((\<forall>c \<in> set s. 0 \<le> c \<and> c < 128) \<longrightarrow>
           normalizeCatalog U s = U (filter (\<lambda>c. c \<notin> set separators) s))
        \<and> normalizeCatalog U (str ''abc-123_45'') = str ''ABC12345''
        \<and> normalizeCatalog U (str ''ABC12345'') = str ''ABC12345''
        \<and> normalizeCatalog U ([9] @ str ''abc - 1 2_3'' @ [10] @ str ''--__45 '') = str ''ABC12345'')"
proof -
  have 1: "normalizeCatalog U s = filter (\<lambda>c. c \<notin> set separators) (U s)"
    by (rule normalizeCatalog_filter)
  have 2: "normalizeCatalog U s = U (filter (\<lambda>c. c \<notin> set separators) s)"
    if "case_mapping U" "\<forall>c \<in> set s. 0 \<le> c \<and> c < 128"
    using that by (simp add: normalizeCatalog_filter case_mapping_commute)
  have a: "\<forall>c \<in> set (str ''abc-123_45''). 0 \<le> c \<and> c < 128"
    "\<forall>c \<in> set (str ''ABC12345''). 0 \<le> c \<and> c < 128"
    "\<forall>c \<in> set ([9] @ str ''abc - 1 2_3'' @ [10] @ str ''--__45 ''). 0 \<le> c \<and> c < 128"
    by code_simp+
  have e: "normalizeCatalog ascii_toUpperCase (str ''abc-123_45'') = str ''ABC12345''"
    "normalizeCatalog ascii_toUpperCase (str ''ABC12345'') = str ''ABC12345''"
    "normalizeCatalog ascii_toUpperCase ([9] @ str ''abc - 1 2_3'' @ [10] @ str ''--__45 '')
       = str ''ABC12345''"
    by code_simp+
  have 3: "normalizeCatalog U (str ''abc-123_45'') = str ''ABC12345''" if "case_mapping U"
    using normalizeCatalog_ascii [OF that a(1)] e(1) by (rule trans)
  have 4: "normalizeCatalog U (str ''ABC12345'') = str ''ABC12345''" if "case_mapping U"
    using normalizeCatalog_ascii [OF that a(2)] e(2) by (rule trans)
  have 5: "normalizeCatalog U ([9] @ str ''abc - 1 2_3'' @ [10] @ str ''--__45 '') = str ''ABC12345''"
    if "case_mapping U"
    using normalizeCatalog_ascii [OF that a(3)] e(3) by (rule trans)
  show ?thesis by (intro conjI impI 1 2 3 4 5; assumption)
qed

theorem normalizeCatalog_upper_without_separators_witness:
  "case_mapping ascii_toUpperCase
   \<and> normalizeCatalog ascii_toUpperCase (str ''abc-123_45'') = str ''ABC12345''
   \<and> normalizeCatalog ascii_toUpperCase (str ''ABC12345'') = str ''ABC12345''
   \<and> normalizeCatalog ascii_toUpperCase (str ''xy 10-0'')
       = ascii_toUpperCase (filter (\<lambda>c. c \<notin> set separators) (str ''xy 10-0''))
   \<and> normalizeCatalog ascii_toUpperCase [97, 160, 98, 8195, 45, 5760, 49, 65279, 95, 12288]
       = filter (\<lambda>c. c \<notin> set separators)
           (ascii_toUpperCase [97, 160, 98, 8195, 45, 5760, 49, 65279, 95, 12288])
   \<and> normalizeCatalog ascii_toUpperCase [97, 160, 98, 8195, 45, 5760, 49, 65279, 95, 12288]
       = str ''AB1''"
proof -
  have a: "\<forall>c \<in> set (str ''xy 10-0''). 0 \<le> c \<and> c < 128" by code_simp
  have b: "filter (\<lambda>c. c \<notin> set separators)
             (ascii_toUpperCase [97, 160, 98, 8195, 45, 5760, 49, 65279, 95, 12288]) = str ''AB1''"
    by code_simp
  note t = normalizeCatalog_upper_without_separators [of ascii_toUpperCase "str ''xy 10-0''"]
  note u = normalizeCatalog_upper_without_separators
      [of ascii_toUpperCase "[97, 160, 98, 8195, 45, 5760, 49, 65279, 95, 12288]"]
  note t' = t [THEN conjunct2, THEN mp, OF case_mapping_ascii]
  have 1: "normalizeCatalog ascii_toUpperCase (str ''abc-123_45'') = str ''ABC12345''"
    using t' [THEN conjunct2, THEN conjunct1] .
  have 2: "normalizeCatalog ascii_toUpperCase (str ''ABC12345'') = str ''ABC12345''"
    using t' [THEN conjunct2, THEN conjunct2, THEN conjunct1] .
  have 3: "normalizeCatalog ascii_toUpperCase (str ''xy 10-0'')
       = ascii_toUpperCase (filter (\<lambda>c. c \<notin> set separators) (str ''xy 10-0''))"
    using t' [THEN conjunct1, THEN mp, OF a] .
  from u have 4: "normalizeCatalog ascii_toUpperCase [97, 160, 98, 8195, 45, 5760, 49, 65279, 95, 12288]
       = filter (\<lambda>c. c \<notin> set separators)
           (ascii_toUpperCase [97, 160, 98, 8195, 45, 5760, 49, 65279, 95, 12288])"
    by (rule conjunct1)
  from 4 b have 5: "normalizeCatalog ascii_toUpperCase [97, 160, 98, 8195, 45, 5760, 49, 65279, 95, 12288]
       = str ''AB1''"
    by (rule trans)
  from case_mapping_ascii 1 2 3 4 5 show ?thesis by (intro conjI)
qed

section \<open>Properties of DraftNormalizer\<close>

lemma bindE_Inr: "bindE m f = Inr y \<longleftrightarrow> (\<exists>x. m = Inr x \<and> f x = Inr y)"
  by (cases m) (simp_all add: bindE_def)

lemma js_get_ok: "\<not> nullish v \<Longrightarrow> js_get v k = Inr (own_prop v k)"
  by (cases v) (auto simp: nullish_def own_prop_def split: option.splits)

lemma js_get_nullish: "nullish v \<Longrightarrow> \<exists>e. js_get v k = Inl e"
  by (cases v) (auto simp: nullish_def)

lemma not_nullish_coalesce: "\<not> nullish (coalesce c (JObj []))"
  by (simp add: coalesce_def nullish_def)

lemma prop_text_Some: "field_text (own_prop item k) = Some s \<Longrightarrow> prop_text item k = s"
  by (simp add: prop_text_def)

lemma transform_line_well_formed:
  assumes "well_formed_item item"
  shows "transform_line U item = Inr (if spec_survives item then Some (spec_line U item) else None)"
proof -
  from assms have n: "\<not> nullish item" by (simp add: well_formed_item_def)
  from assms obtain b c q where
    b: "field_text (own_prop item (str ''brand'')) = Some b" and
    c: "field_text (own_prop item (str ''catalog_number'')) = Some c" and
    q: "field_text (own_prop item (str ''quantity'')) = Some q"
    unfolding well_formed_item_def stringable_field_text by blast
  show ?thesis
    by (simp add: transform_line_def js_get_ok [OF n] text_js_eq asQty_eq b c q bindE_def
        spec_survives_def spec_line_def prop_text_Some blank_strip normalizeCatalog_filter
        split: option.splits)
qed

lemma transform_line_ill_formed:
  assumes "\<not> well_formed_item item"
  shows "\<exists>e. transform_line U item = Inl e"
proof (cases "nullish item")
  case True
  from js_get_nullish [OF True, of "str ''brand''"] show ?thesis
    by (auto simp: transform_line_def bindE_def)
next
  case False
  with assms consider
      "field_text (own_prop item (str ''brand'')) = None"
    | "field_text (own_prop item (str ''catalog_number'')) = None"
    | "field_text (own_prop item (str ''quantity'')) = None"
    unfolding well_formed_item_def stringable_field_text by blast
  then show ?thesis
    by cases
      (simp_all add: transform_line_def js_get_ok [OF False] text_js_eq asQty_eq bindE_def
        split: option.splits sum.splits)
qed

lemma transform_line_Inr:
  "transform_line U item = Inr r \<longleftrightarrow>
     well_formed_item item \<and> r = (if spec_survives item then Some (spec_line U item) else None)"
  using transform_line_well_formed [of item U] transform_line_ill_formed [of item U]
  by (cases "well_formed_item item") auto

lemma map_filter_if:
  "List.map_filter (\<lambda>r. r) (map (\<lambda>x. if P x then Some (f x) else None) xs) = map f (filter P xs)"
  by (induction xs) (simp_all add: map_filter_simps)

lemma lines_of_items:
  "sequenceE (map (transform_line U) items) = Inr rs \<Longrightarrow>
     List.map_filter (\<lambda>r. r) rs = map (spec_line U) (filter spec_survives items)"
proof (induction items arbitrary: rs)
  case Nil
  then show ?case by (simp add: map_filter_simps)
next
  case (Cons item items)
  from Cons.prems obtain r rs' where
    r: "transform_line U item = Inr r" and rs': "sequenceE (map (transform_line U) items) = Inr rs'"
    and rs: "rs = r # rs'"
    by (auto split: sum.splits)
  from r [unfolded transform_line_Inr] Cons.IH [OF rs'] show ?case
    unfolding rs by (simp add: map_filter_simps)
qed

lemma transformAiToDraft_lines:
  assumes "transformAiToDraft U ai = Inr d"
  shows "lines d = map (spec_line U) (filter spec_survives (items_of (own_prop ai (str ''items''))))"
proof -
  from assms obtain its rs where
    its: "js_get ai (str ''items'') = Inr its" and
    rs: "sequenceE (map (transform_line U) (items_of its)) = Inr rs" and
    d: "lines d = List.map_filter (\<lambda>r. r) rs"
    unfolding transformAiToDraft_def bindE_Inr Let_def by auto
  from its have "own_prop ai (str ''items'') = its"
    by (cases ai) (auto simp: own_prop_def split: option.splits)
  with lines_of_items [OF rs] d show ?thesis by simp
qed


lemma sequenceE_map_ok:
  "(\<And>x. x \<in> set xs \<Longrightarrow> \<exists>y. f x = Inr y) \<Longrightarrow> \<exists>ys. sequenceE (map f xs) = Inr ys"
  by (induction xs) fastforce+

lemma text_js_ok: "stringable v \<Longrightarrow> \<exists>s. text_js v fb = Inr s"
  by (auto simp: text_js_eq stringable_field_text)

lemma maybeText_ok: "stringable v \<Longrightarrow> \<exists>s. maybeText v = Inr s"
  by (auto simp: maybeText_eq stringable_field_text)

lemma transformAiToDraft_ok:
  assumes "well_formed_raw ai"
  shows "\<exists>d. transformAiToDraft U ai = Inr d"
proof -
  let ?c = "coalesce (own_prop ai (str ''customer'')) (JObj [])"
  let ?d = "coalesce (own_prop ai (str ''delivery'')) (JObj [])"
  from assms have n: "\<not> nullish ai" by (simp add: well_formed_raw_def)
  from assms have c: "stringable (own_prop ?c k)"
    if "k \<in> set [str ''name'', str ''country'', str ''billing_address'', str ''contact_person'',
                  str ''contact_phone'', str ''contact_email'']" for k
    using that unfolding well_formed_raw_def by blast
  from assms have d: "stringable (own_prop ?d k)"
    if "k \<in> set [str ''company_name'', str ''address'', str ''contact_person'', str ''phone'',
                  str ''email'']" for k
    using that unfolding well_formed_raw_def by blast
  obtain f1 where f1: "text_js (own_prop ?c (str ''name'')) [] = Inr f1" using text_js_ok c by force
  obtain f2 where f2: "text_js (own_prop ?c (str ''country'')) [] = Inr f2" using text_js_ok c by force
  obtain f3 where f3: "maybeText (own_prop ?c (str ''billing_address'')) = Inr f3" using maybeText_ok c by force
  obtain f4 where f4: "maybeText (own_prop ?c (str ''contact_person'')) = Inr f4" using maybeText_ok c by force
  obtain f5 where f5: "maybeText (own_prop ?c (str ''contact_phone'')) = Inr f5" using maybeText_ok c by force
  obtain f6 where f6: "maybeText (own_prop ?c (str ''contact_email'')) = Inr f6" using maybeText_ok c by force
  obtain f7 where f7: "maybeText (own_prop ?d (str ''company_name'')) = Inr f7" using maybeText_ok d by force
  obtain f8 where f8: "maybeText (own_prop ?d (str ''address'')) = Inr f8" using maybeText_ok d by force
  obtain f9 where f9: "maybeText (own_prop ?d (str ''contact_person'')) = Inr f9" using maybeText_ok d by force
  obtain f10 where f10: "maybeText (own_prop ?d (str ''phone'')) = Inr f10" using maybeText_ok d by force
  obtain f11 where f11: "maybeText (own_prop ?d (str ''email'')) = Inr f11" using maybeText_ok d by force
  have "\<exists>rs. sequenceE (map (transform_line U) (items_of (own_prop ai (str ''items'')))) = Inr rs"
  proof (rule sequenceE_map_ok)
    fix x assume "x \<in> set (items_of (own_prop ai (str ''items'')))"
    with assms have "well_formed_item x" by (simp add: well_formed_raw_def)
    then show "\<exists>y. transform_line U x = Inr y" by (simp add: transform_line_well_formed)
  qed
  then obtain rs where rs: "sequenceE (map (transform_line U) (items_of (own_prop ai (str ''items'')))) = Inr rs" ..
  show ?thesis
    by (simp add: transformAiToDraft_def js_get_ok [OF n] js_get_ok [OF not_nullish_coalesce]
        f1 f2 f3 f4 f5 f6 f7 f8 f9 f10 f11 rs bindE_def Let_def)
qed

lemma quantity_of_pos: "quantity_of s = Some n \<Longrightarrow> 0 < n"
  using nearest_number_pos
  by (auto simp: quantity_of_def split: option.splits if_splits)

lemma lines_valid:
  assumes "case_mapping U" "transformAiToDraft U ai = Inr d" "l \<in> set (lines d)"
  shows "brandInputUpper l \<noteq> [] \<and> catalogUpper l \<noteq> [] \<and> 0 < quantity l"
proof -
  from assms(2,3) transformAiToDraft_lines obtain item where
    s: "spec_survives item" and l: "l = spec_line U item" by auto
  from s obtain n where n: "quantity_of (prop_text item (str ''quantity'')) = Some n"
    by (auto simp: spec_survives_def)
  from s n quantity_of_pos [OF n] show ?thesis
    by (simp add: l spec_survives_def spec_line_def case_mapping_Nil [OF assms(1)] blank_strip)
qed

lemma takeWhile_digits:
  assumes "\<forall>c \<in> set ds. c \<in> set decimal_digits" "rest = [] \<or> hd rest \<notin> set decimal_digits"
  shows "takeWhile (\<lambda>c. c \<in> set decimal_digits) (ds @ rest) = ds"
proof -
  from assms(2) have "takeWhile (\<lambda>c. c \<in> set decimal_digits) rest = []" by (cases rest) auto
  with assms(1) show ?thesis by (simp add: takeWhile_append2)
qed

lemma leading_integer_unsigned:
  assumes t: "t = sg @ ds @ rest" and sg: "sg = [] \<or> sg = str ''+''" and ne: "ds \<noteq> []"
    and ds: "\<forall>c \<in> set ds. c \<in> set decimal_digits"
    and rest: "rest = [] \<or> hd rest \<notin> set decimal_digits"
  shows "leading_integer t = Some (decimal ds)"
proof -
  from ne obtain d ds' where d: "ds = d # ds'" by (cases ds) auto
  with ds have dd: "d \<noteq> 45" "d \<noteq> 43" by (auto simp: decimal_digits_def)
  have z: "takeWhile (\<lambda>c. c \<in> set decimal_digits) (ds @ rest) = ds"
    by (rule takeWhile_digits [OF ds rest])
  from sg show ?thesis
  proof
    assume "sg = []"
    with t d have t': "t = d # ds' @ rest" by simp
    have "takeWhile (\<lambda>c. c \<in> set decimal_digits) (d # ds' @ rest) = ds" using z d by simp
    then show ?thesis
      using dd ne by (simp add: leading_integer_def t' str_def del: takeWhile.simps)
  next
    assume "sg = str ''+''"
    with t have t': "t = 43 # ds @ rest" by (simp add: str_def)
    show ?thesis using z ne
      by (simp add: leading_integer_def t' str_def)
  qed
qed

lemma nearest_number_exact: "n < 2 ^ 53 \<Longrightarrow> nearest_number n = n \<and> nearest_number n < 2 ^ 1024"
proof -
  assume n: "n < 2 ^ 53"
  have "(2::int) ^ 53 \<le> 2 ^ 1024" by (rule power_increasing) simp_all
  with n have "n < 2 ^ 1024" by linarith
  with n show ?thesis by (simp add: nearest_number_def)
qed

lemma not_blank_field_text: "\<not> blank (prop_text item k) \<Longrightarrow> field_text (own_prop item k) \<noteq> None"
  by (cases "field_text (own_prop item k)") (simp_all add: prop_text_def blank_def)

text \<open>
  C4, as stated, fails: a field that holds an object with an own \<open>toString\<close> property
  makes \<^verbatim>\<open>String\<close> raise a \<open>TypeError\<close>, and so does an item that is \<^verbatim>\<open>null\<close>
  at the read of its \<open>brand\<close>; \<open>transformAiToDraft\<close> returns no draft on either input.
\<close>

theorem transformAiToDraft_raises_counterexample:
  "transformAiToDraft ascii_toUpperCase
     (JObj [(str ''customer'', JObj [(str ''name'', JObj [(str ''toString'', JNull)])])])
     = Inl (TypeError (str ''Cannot convert object to primitive value''))
   \<and> transformAiToDraft ascii_toUpperCase (JObj [(str ''items'', JArr [JNull])])
     = Inl (TypeError (str ''Cannot read properties of null (reading '' @ [39] @ str ''brand'' @
                        [39] @ str '')''))"
  by code_simp

text \<open>
  C4, amended. For every raw extraction that is not \<^verbatim>\<open>null\<close>, whose items are not
  \<^verbatim>\<open>null\<close> and whose fields hold no object with an own \<open>toString\<close> property (missing,
  \<^verbatim>\<open>null\<close> and otherwise arbitrarily typed fields included), \<open>transformAiToDraft\<close>
  returns a draft; and every line of a draft it returns has a non-empty brand, a
  non-empty catalog and an integer quantity greater than zero, the case conversion
  being one that makes no string empty that is not.
\<close>

theorem transformAiToDraft_returns_valid_lines:
  "(well_formed_raw ai \<longrightarrow> (\<exists>d. transformAiToDraft U ai = Inr d))
   \<and> (case_mapping U \<and> transformAiToDraft U ai = Inr d \<longrightarrow>
        (\<forall>l \<in> set (lines d). brandInputUpper l \<noteq> [] \<and> catalogUpper l \<noteq> [] \<and> 0 < quantity l))"
  using transformAiToDraft_ok [of ai U] lines_valid [of U ai d] by blast

theorem transformAiToDraft_returns_valid_lines_witness:
  "well_formed_raw example_raw
   \<and> case_mapping ascii_toUpperCase
   \<and> transformAiToDraft ascii_toUpperCase example_raw = Inr example_draft
   \<and> list_all (\<lambda>l. brandInputUpper l \<noteq> [] \<and> catalogUpper l \<noteq> [] \<and> 0 < quantity l)
        (lines example_draft)"
proof -
  have w: "well_formed_raw example_raw" by code_simp
  have d: "transformAiToDraft ascii_toUpperCase example_raw = Inr example_draft" by code_simp
  from transformAiToDraft_returns_valid_lines [of example_raw ascii_toUpperCase example_draft]
    w d case_mapping_ascii
  show ?thesis by (simp add: list_all_iff)
qed




text \<open>
  C9, as stated, fails where the leading integer is not positive, and where it is too
  large for a Number to hold exactly: the quantity \<open>0.5\<close> parses to 0 and the item is
  dropped; \<open>9007199254740993 pcs\<close> gives 9007199254740992; and a quantity of 310
  nines (code unit 57) parses to \<^verbatim>\<open>Infinity\<close> and the item is dropped.
\<close>

theorem asQty_leading_integer_counterexample:
  "asQty (JStr (str ''0.5'')) = Inr None
   \<and> transform_line ascii_toUpperCase (example_item (JStr (str ''0.5''))) = Inr None
   \<and> asQty (JStr (str ''9007199254740993 pcs'')) = Inr (Some 9007199254740992)
   \<and> asQty (JStr (replicate 310 57 @ str '' pcs'')) = Inr None"
  by code_simp

text \<open>
  C9, amended. When the quantity of an item coerces to a string that, without the
  white space at its two ends, is an optional plus sign, then decimal digits that
  denote an integer greater than zero and below \<open>2 ^ 53\<close>, then anything that does not
  start with a digit (\<open>7.5\<close>, \<open>7 pcs\<close>), \<open>asQty\<close> returns that integer; and if the item
  is not \<^verbatim>\<open>null\<close> and its brand and catalog coerce to strings that are not blank, the
  callback returns its line, with that quantity.
\<close>

theorem asQty_truncates_to_leading_integer:
  assumes "field_text q = Some s"
    and "strip s = sg @ ds @ rest"
    and "sg = [] \<or> sg = str ''+''"
    and "ds \<noteq> []"
    and "\<forall>c \<in> set ds. c \<in> set decimal_digits"
    and "rest = [] \<or> hd rest \<notin> set decimal_digits"
    and "0 < decimal ds"
    and "decimal ds < 2 ^ 53"
  shows "asQty q = Inr (Some (decimal ds))
    \<and> (\<not> nullish item \<and> own_prop item (str ''quantity'') = q \<and>
         \<not> blank (prop_text item (str ''brand'')) \<and>
         \<not> blank (prop_text item (str ''catalog_number'')) \<longrightarrow>
         transform_line U item =
           Inr (Some \<lparr>brandInputUpper = U (strip (prop_text item (str ''brand''))),
                      catalogUpper = U (strip (prop_text item (str ''catalog_number''))),
                      normalizedCatalog =
                        filter (\<lambda>c. c \<notin> set separators)
                          (U (strip (prop_text item (str ''catalog_number'')))),
                      quantity = decimal ds\<rparr>))"
proof -
  have p: "quantity_of s = Some (decimal ds)"
    using leading_integer_unsigned [OF assms(2-6)] nearest_number_exact [OF assms(8)] assms(7)
    by (simp add: quantity_of_def)
  have 1: "asQty q = Inr (Some (decimal ds))"
    by (simp add: asQty_eq assms(1) p)
  have 2: "transform_line U item =
           Inr (Some \<lparr>brandInputUpper = U (strip (prop_text item (str ''brand''))),
                      catalogUpper = U (strip (prop_text item (str ''catalog_number''))),
                      normalizedCatalog =
                        filter (\<lambda>c. c \<notin> set separators)
                          (U (strip (prop_text item (str ''catalog_number'')))),
                      quantity = decimal ds\<rparr>)"
    if n: "\<not> nullish item" and q: "own_prop item (str ''quantity'') = q"
      and b: "\<not> blank (prop_text item (str ''brand''))"
      and c: "\<not> blank (prop_text item (str ''catalog_number''))"
  proof -
    from n q assms(1) not_blank_field_text [OF b] not_blank_field_text [OF c]
    have w: "well_formed_item item"
      by (simp add: well_formed_item_def stringable_field_text)
    from q assms(1) have pq: "prop_text item (str ''quantity'') = s"
      by (simp add: prop_text_def)
    from b c p pq have "spec_survives item" by (simp add: spec_survives_def)
    with w p pq show ?thesis by (simp add: transform_line_well_formed spec_line_def)
  qed
  from 1 2 show ?thesis by blast
qed

theorem asQty_truncates_to_leading_integer_witness:
  "asQty (JStr ([160, 32] @ str ''7 pcs'')) = Inr (Some 7)
   \<and> transform_line ascii_toUpperCase (example_item (JStr ([160, 32] @ str ''7 pcs'')))
       = Inr (Some (example_line 7))
   \<and> asQty (JNum (str ''7.5'')) = Inr (Some 7)
   \<and> transform_line ascii_toUpperCase (example_item (JNum (str ''7.5''))) = Inr (Some (example_line 7))"
proof -
  let ?q1 = "JStr ([160, 32] @ str ''7 pcs'')"
  let ?q2 = "JNum (str ''7.5'')"
  have h1: "field_text ?q1 = Some ([160, 32] @ str ''7 pcs'')"
    "strip ([160, 32] @ str ''7 pcs'') = [] @ str ''7'' @ str '' pcs''"
    "[] = [] \<or> [] = str ''+''"
    "str ''7'' \<noteq> []"
    "\<forall>c \<in> set (str ''7''). c \<in> set decimal_digits"
    "str '' pcs'' = [] \<or> hd (str '' pcs'') \<notin> set decimal_digits"
    "0 < decimal (str ''7'')" "decimal (str ''7'') < 2 ^ 53"
    by code_simp+
  have h2: "field_text ?q2 = Some (str ''7.5'')"
    "strip (str ''7.5'') = [] @ str ''7'' @ str ''.5''"
    "str ''.5'' = [] \<or> hd (str ''.5'') \<notin> set decimal_digits"
    by code_simp+
  have d: "decimal (str ''7'') = 7" by code_simp
  have i1: "\<not> nullish (example_item ?q1)" "own_prop (example_item ?q1) (str ''quantity'') = ?q1"
    "\<not> blank (prop_text (example_item ?q1) (str ''brand''))"
    "\<not> blank (prop_text (example_item ?q1) (str ''catalog_number''))"
    by code_simp+
  have i2: "\<not> nullish (example_item ?q2)" "own_prop (example_item ?q2) (str ''quantity'') = ?q2"
    "\<not> blank (prop_text (example_item ?q2) (str ''brand''))"
    "\<not> blank (prop_text (example_item ?q2) (str ''catalog_number''))"
    by code_simp+
  have l1: "\<lparr>brandInputUpper = ascii_toUpperCase (strip (prop_text (example_item ?q1) (str ''brand''))),
             catalogUpper = ascii_toUpperCase (strip (prop_text (example_item ?q1) (str ''catalog_number''))),
             normalizedCatalog =
               filter (\<lambda>c. c \<notin> set separators)
                 (ascii_toUpperCase (strip (prop_text (example_item ?q1) (str ''catalog_number'')))),
             quantity = 7\<rparr> = example_line 7"
    by code_simp
  have l2: "\<lparr>brandInputUpper = ascii_toUpperCase (strip (prop_text (example_item ?q2) (str ''brand''))),
             catalogUpper = ascii_toUpperCase (strip (prop_text (example_item ?q2) (str ''catalog_number''))),
             normalizedCatalog =
               filter (\<lambda>c. c \<notin> set separators)
                 (ascii_toUpperCase (strip (prop_text (example_item ?q2) (str ''catalog_number'')))),
             quantity = 7\<rparr> = example_line 7"
    by code_simp
  note t1 = asQty_truncates_to_leading_integer
    [of ?q1 "[160, 32] @ str ''7 pcs''" "[]" "str ''7''" "str '' pcs''" "example_item ?q1"
       ascii_toUpperCase, OF h1, unfolded d]
  note t2 = asQty_truncates_to_leading_integer
    [of ?q2 "str ''7.5''" "[]" "str ''7''" "str ''.5''" "example_item ?q2"
       ascii_toUpperCase, OF h2(1,2) h1(3,4,5) h2(3) h1(7,8), unfolded d]
  from t1 [THEN conjunct2, THEN mp, OF conjI [OF i1(1) conjI [OF i1(2) conjI [OF i1(3) i1(4)]]]]
  have a: "transform_line ascii_toUpperCase (example_item ?q1) = Inr (Some (example_line 7))"
    unfolding l1 .
  from t2 [THEN conjunct2, THEN mp, OF conjI [OF i2(1) conjI [OF i2(2) conjI [OF i2(3) i2(4)]]]]
  have b: "transform_line ascii_toUpperCase (example_item ?q2) = Inr (Some (example_line 7))"
    unfolding l2 .
  from t1 [THEN conjunct1] a t2 [THEN conjunct1] b show ?thesis by (intro conjI)
qed

section \<open>Properties of the store and of the loops\<close>

lemma take_fault_eq: "take_fault fs = (case fs of [] \<Rightarrow> None | f # _ \<Rightarrow> f, tl fs)"
  by (simp add: take_fault_def split: list.splits)

lemma text_js_JStr: "text_js (JStr s) fb = Inr (if blank s then fb else strip s)"
  by (simp add: text_js_eq)

lemma text_js_JNull: "text_js JNull fb = Inr fb"
  by (simp add: text_js_eq blank_def)

lemma strip_Nil: "strip [] = []"
  by (simp add: strip_def)

lemma text_js_env: "text_js (env_val v) [] = Inr (setting v)"
  by (cases v) (simp_all add: env_val_def text_js_eq setting_def blank_strip strip_Nil)

lemma resolveBrand_eq:
  "resolveBrand U input st =
     (Inr (case select_faults st of Some msg # _ \<Rightarrow> input | _ \<Rightarrow> spec_resolve U (brand_alias st) input),
      st\<lparr>select_faults := tl (select_faults st)\<rparr>)"
proof (cases "select_faults st")
  case Nil
  then show ?thesis
    by (cases "filter (\<lambda>r. alias_key r = input) (brand_alias st)")
       (auto simp: resolveBrand_def select_brand_alias_def take_fault_eq spec_resolve_def
          text_js_JStr text_js_JNull bindE_def Let_def strip_Nil blank_strip split: option.splits)
next
  case (Cons f fs)
  then show ?thesis
    by (cases "filter (\<lambda>r. alias_key r = input) (brand_alias st)"; cases f)
       (auto simp: resolveBrand_def select_brand_alias_def take_fault_eq spec_resolve_def
          text_js_JStr text_js_JNull bindE_def Let_def strip_Nil blank_strip split: option.splits)
qed

lemma insert_inquiry_item_ok:
  "(case insert_faults st of [] \<Rightarrow> None | f # _ \<Rightarrow> f) = None \<Longrightarrow>
   insert_inquiry_item row st =
     (\<lparr>data = Some (Ident (next_id st)), error = None\<rparr>,
      st\<lparr>inquiry_items := inquiry_items st @ [(Ident (next_id st), row)],
         next_id := Suc (next_id st), insert_faults := tl (insert_faults st)\<rparr>)"
  by (simp add: insert_inquiry_item_def take_fault_eq)

lemma insert_inquiry_item_fail:
  "insert_faults st = Some msg # rest \<Longrightarrow>
   insert_inquiry_item row st = (\<lparr>data = None, error = Some msg\<rparr>, st\<lparr>insert_faults := rest\<rparr>)"
  by (simp add: insert_inquiry_item_def take_fault_eq)

lemma loop1_ok:
  assumes "\<forall>f \<in> set (take (length ls) (insert_faults st)). f = None"
  shows "insert_inquiry_items U uid iid ls acc st =
     (Inr (acc @ saved_items U (brand_alias st) (next_id st) (select_faults st) ls),
      st\<lparr>inquiry_items := inquiry_items st @
            map (row_of uid iid) (saved_items U (brand_alias st) (next_id st) (select_faults st) ls),
         next_id := next_id st + length ls,
         insert_faults := drop (length ls) (insert_faults st),
         select_faults := drop (length ls) (select_faults st)\<rparr>)"
  using assms
proof (induction ls arbitrary: acc st)
  case Nil
  show ?case by simp
next
  case (Cons l ls)
  let ?st1 = "st\<lparr>select_faults := tl (select_faults st)\<rparr>"
  from Cons.prems have h: "(case insert_faults ?st1 of [] \<Rightarrow> None | f # _ \<Rightarrow> f) = None"
    by (cases "insert_faults st") auto
  from Cons.prems have r: "\<forall>f \<in> set (take (length ls) (tl (insert_faults st))). f = None"
    by (cases "insert_faults st") auto
  show ?case
    by (simp add: resolveBrand_eq insert_inquiry_item_ok [OF h] Cons.IH r row_of_def drop_Suc)
qed

lemma loop1_fail:
  assumes "insert_faults st = replicate j None @ Some msg # rest" and "j < length ls"
  shows "insert_inquiry_items U uid iid ls acc st =
     (Inl (Error (str ''Create inquiry item failed: '' @ message_or_unknown (Some msg))),
      st\<lparr>inquiry_items := inquiry_items st @
            map (row_of uid iid) (saved_items U (brand_alias st) (next_id st) (select_faults st) (take j ls)),
         next_id := next_id st + j,
         insert_faults := rest,
         select_faults := drop (Suc j) (select_faults st)\<rparr>)"
  using assms
proof (induction ls arbitrary: j acc st)
  case Nil
  then show ?case by simp
next
  case (Cons l ls)
  let ?st1 = "st\<lparr>select_faults := tl (select_faults st)\<rparr>"
  show ?case
  proof (cases j)
    case 0
    with Cons.prems have f: "insert_faults ?st1 = Some msg # rest" by simp
    show ?thesis
      by (simp add: 0 resolveBrand_eq insert_inquiry_item_fail [OF f] drop_Suc)
  next
    case (Suc j')
    with Cons.prems have h: "(case insert_faults ?st1 of [] \<Rightarrow> None | f # _ \<Rightarrow> f) = None"
      by simp
    from Suc Cons.prems have r: "tl (insert_faults st) = replicate j' None @ Some msg # rest" "j' < length ls"
      by simp_all
    show ?thesis
      by (simp add: Suc resolveBrand_eq insert_inquiry_item_ok [OF h] Cons.IH r row_of_def drop_Suc)
  qed
qed

lemma select_price_list_eq:
  "select_price_list b c st =
     (\<lparr>data = (case select_faults st of Some msg # _ \<Rightarrow> None | _ \<Rightarrow> spec_price_hit (price_list st) b c),
       error = (case select_faults st of
                  Some msg # _ \<Rightarrow> Some msg
                | _ \<Rightarrow> (case filter (\<lambda>r. pl_brand r = b \<and> pl_normalized_catalog_number r = c) (price_list st) of
                         _ # _ # _ \<Rightarrow> Some (str ''JSON object requested, multiple (or no) rows returned'')
                       | _ \<Rightarrow> None))\<rparr>,
      st\<lparr>select_faults := tl (select_faults st)\<rparr>)"
  by (auto simp: select_price_list_def take_fault_eq spec_price_hit_def split: list.splits option.splits)

lemma insert_quotation_item_ok:
  "(case insert_faults st of [] \<Rightarrow> None | f # _ \<Rightarrow> f) = None \<Longrightarrow>
   insert_quotation_item row st =
     (\<lparr>data = None, error = None\<rparr>,
      st\<lparr>quotation_items := quotation_items st @ [(Ident (next_id st), row)],
         next_id := Suc (next_id st), insert_faults := tl (insert_faults st)\<rparr>)"
  by (simp add: insert_quotation_item_def take_fault_eq)

lemma loop2_ok:
  assumes "\<forall>f \<in> set (take (length items) (insert_faults st)). f = None"
  shows "insert_quotation_items uid qid items st =
     (Inr (),
      st\<lparr>quotation_items := quotation_items st @
            quotation_rows uid qid (price_list st) (next_id st) (select_faults st) items,
         next_id := next_id st + length items,
         insert_faults := drop (length items) (insert_faults st),
         select_faults := drop (length items) (select_faults st)\<rparr>)"
  using assms
proof (induction items arbitrary: st)
  case Nil
  show ?case by simp
next
  case (Cons item items)
  let ?st1 = "st\<lparr>select_faults := tl (select_faults st)\<rparr>"
  from Cons.prems have h: "(case insert_faults ?st1 of [] \<Rightarrow> None | f # _ \<Rightarrow> f) = None"
    by (cases "insert_faults st") auto
  from Cons.prems have r: "\<forall>f \<in> set (take (length items) (tl (insert_faults st))). f = None"
    by (cases "insert_faults st") auto
  show ?case
    by (simp add: select_price_list_eq insert_quotation_item_ok [OF h] Cons.IH r drop_Suc Let_def)
qed

lemma insert_inquiry_ok:
  "(case insert_faults st of [] \<Rightarrow> None | f # _ \<Rightarrow> f) = None \<Longrightarrow>
   insert_inquiry row st =
     (\<lparr>data = Some (Ident (next_id st)), error = None\<rparr>,
      st\<lparr>inquiries := inquiries st @ [(Ident (next_id st), row)],
         next_id := Suc (next_id st), insert_faults := tl (insert_faults st)\<rparr>)"
  by (simp add: insert_inquiry_def take_fault_eq)

lemma insert_quotation_ok:
  "(case insert_faults st of [] \<Rightarrow> None | f # _ \<Rightarrow> f) = None \<Longrightarrow>
   insert_quotation row st =
     (\<lparr>data = Some (Ident (next_id st)), error = None\<rparr>,
      st\<lparr>quotations := quotations st @ [(Ident (next_id st), row)],
         next_id := Suc (next_id st), insert_faults := tl (insert_faults st)\<rparr>)"
  by (simp add: insert_quotation_def take_fault_eq)

lemma length_saved_items: "length (saved_items U tbl n sf ls) = length ls"
  by (induction ls arbitrary: n sf) simp_all

lemma length_quotation_rows: "length (quotation_rows uid qid pl n sf items) = length items"
  by (induction items arbitrary: n sf) (simp_all add: Let_def)

lemma no_fault_Suc:
  "\<forall>f \<in> set (take (Suc k) fs). f = None \<Longrightarrow>
     (case fs of [] \<Rightarrow> None | f # _ \<Rightarrow> f) = None \<and> (\<forall>f \<in> set (take k (tl fs)). f = None)"
  by (cases fs) auto

lemma no_fault_add:
  "\<forall>f \<in> set (take (a + b) fs). f = None \<Longrightarrow>
     (\<forall>f \<in> set (take a fs). f = None) \<and> (\<forall>f \<in> set (take b (drop a fs)). f = None)"
proof (intro conjI ballI)
  fix f assume h: "\<forall>f \<in> set (take (a + b) fs). f = None" and f: "f \<in> set (take a fs)"
  have "set (take a fs) \<subseteq> set (take (a + b) fs)" by (rule set_take_subset_set_take) simp
  with h f show "f = None" by blast
next
  fix f assume h: "\<forall>f \<in> set (take (a + b) fs). f = None" and f: "f \<in> set (take b (drop a fs))"
  have "take (a + b) fs = take a fs @ take b (drop a fs)" by (simp add: take_add)
  with h f show "f = None" by simp
qed

lemma save_configured:
  assumes "configured env" and "lines draft \<noteq> []"
  shows "saveDraftToSupabase U env draft st =
     (case insert_inquiry (spec_inquiry_row (owner env) draft) st of
        (resp, st1) \<Rightarrow>
          (case (error resp, data resp) of
             (None, Some inquiry) \<Rightarrow>
               (case insert_inquiry_items U (owner env) inquiry (lines draft) [] st1 of
                  (Inl e, st2) \<Rightarrow> (Inl e, st2)
                | (Inr inquiryItems, st2) \<Rightarrow>
                    (case insert_quotation (spec_quotation_row (owner env) inquiry draft) st2 of
                       (qresp, st3) \<Rightarrow>
                         (case (error qresp, data qresp) of
                            (None, Some quotation) \<Rightarrow>
                              (case insert_quotation_items (owner env) quotation inquiryItems st3 of
                                 (Inl e, st4) \<Rightarrow> (Inl e, st4)
                               | (Inr u, st4) \<Rightarrow>
                                   (Inr \<lparr>inquiryId = inquiry, quotationId = quotation\<rparr>, st4))
                          | _ \<Rightarrow>
                              (Inl (Error (str ''Create quotation failed: '' @
                                           message_or_unknown (error qresp))), st3))))
           | _ \<Rightarrow>
               (Inl (Error (str ''Create inquiry failed: '' @ message_or_unknown (error resp))), st1)))"
  using assms
  unfolding saveDraftToSupabase_def spec_inquiry_row_def spec_quotation_row_def owner_def
    configured_def text_js_env
  by (simp only: prod.case sum.case simp_thms if_False)

lemma save_ok:
  assumes c: "configured env" and ne: "lines draft \<noteq> []"
    and f: "\<forall>f \<in> set (take (2 * length (lines draft) + 2) (insert_faults st)). f = None"
  shows "saveDraftToSupabase U env draft st =
     (Inr \<lparr>inquiryId = Ident (next_id st),
           quotationId = Ident (next_id st + length (lines draft) + 1)\<rparr>,
      st\<lparr>inquiries := inquiries st @ [(Ident (next_id st), spec_inquiry_row (owner env) draft)],
         inquiry_items := inquiry_items st @
           map (row_of (owner env) (Ident (next_id st)))
             (saved_items U (brand_alias st) (Suc (next_id st)) (select_faults st) (lines draft)),
         quotations := quotations st @
           [(Ident (next_id st + length (lines draft) + 1),
             spec_quotation_row (owner env) (Ident (next_id st)) draft)],
         quotation_items := quotation_items st @
           quotation_rows (owner env) (Ident (next_id st + length (lines draft) + 1)) (price_list st)
             (next_id st + length (lines draft) + 2)
             (drop (length (lines draft)) (select_faults st))
             (saved_items U (brand_alias st) (Suc (next_id st)) (select_faults st) (lines draft)),
         next_id := next_id st + 2 * length (lines draft) + 2,
         insert_faults := drop (2 * length (lines draft) + 2) (insert_faults st),
         select_faults := drop (2 * length (lines draft)) (select_faults st)\<rparr>)"
proof -
  let ?N = "length (lines draft)"
  let ?ifs = "insert_faults st"
  have e: "2 * ?N + 2 = Suc (?N + Suc ?N)" by simp
  from f have f0: "\<forall>f \<in> set (take (Suc (?N + Suc ?N)) ?ifs). f = None" unfolding e .
  from no_fault_Suc [OF f0] have
    h0: "(case ?ifs of [] \<Rightarrow> None | f # _ \<Rightarrow> f) = None" and
    f1: "\<forall>f \<in> set (take (?N + Suc ?N) (tl ?ifs)). f = None" by simp_all
  from no_fault_add [OF f1] have
    l1: "\<forall>f \<in> set (take ?N (tl ?ifs)). f = None" and
    f2: "\<forall>f \<in> set (take (Suc ?N) (drop ?N (tl ?ifs))). f = None" by simp_all
  from no_fault_Suc [OF f2] have
    h2: "(case drop ?N (tl ?ifs) of [] \<Rightarrow> None | f # _ \<Rightarrow> f) = None" and
    l2: "\<forall>f \<in> set (take ?N (tl (drop ?N (tl ?ifs)))). f = None" by simp_all
  define st1 where "st1 = st\<lparr>inquiries := inquiries st @ [(Ident (next_id st), spec_inquiry_row (owner env) draft)],
         next_id := Suc (next_id st), insert_faults := tl ?ifs\<rparr>"
  have s1: "insert_inquiry (spec_inquiry_row (owner env) draft) st =
      (\<lparr>data = Some (Ident (next_id st)), error = None\<rparr>, st1)"
    unfolding st1_def by (rule insert_inquiry_ok [OF h0])
  define items where "items = saved_items U (brand_alias st1) (next_id st1) (select_faults st1) (lines draft)"
  define st2 where "st2 = st1\<lparr>inquiry_items := inquiry_items st1 @ map (row_of (owner env) (Ident (next_id st))) items,
         next_id := next_id st1 + ?N,
         insert_faults := drop ?N (insert_faults st1),
         select_faults := drop ?N (select_faults st1)\<rparr>"
  have l1': "\<forall>f \<in> set (take ?N (insert_faults st1)). f = None" using l1 by (simp add: st1_def)
  have s2: "insert_inquiry_items U (owner env) (Ident (next_id st)) (lines draft) [] st1 = (Inr items, st2)"
    unfolding st2_def items_def using loop1_ok [OF l1', of U "owner env" "Ident (next_id st)" "[]"] by simp
  define qid where "qid = Ident (next_id st2)"
  define st3 where "st3 = st2\<lparr>quotations := quotations st2 @ [(qid, spec_quotation_row (owner env) (Ident (next_id st)) draft)],
         next_id := Suc (next_id st2), insert_faults := tl (insert_faults st2)\<rparr>"
  have h2': "(case insert_faults st2 of [] \<Rightarrow> None | f # _ \<Rightarrow> f) = None"
    using h2 by (simp add: st2_def st1_def)
  have s3: "insert_quotation (spec_quotation_row (owner env) (Ident (next_id st)) draft) st2 =
      (\<lparr>data = Some qid, error = None\<rparr>, st3)"
    unfolding st3_def qid_def by (rule insert_quotation_ok [OF h2'])
  define st4 where "st4 = st3\<lparr>quotation_items := quotation_items st3 @
            quotation_rows (owner env) qid (price_list st3) (next_id st3) (select_faults st3) items,
         next_id := next_id st3 + length items,
         insert_faults := drop (length items) (insert_faults st3),
         select_faults := drop (length items) (select_faults st3)\<rparr>"
  have l2': "\<forall>f \<in> set (take (length items) (insert_faults st3)). f = None"
    using l2 by (simp add: st3_def st2_def st1_def items_def length_saved_items)
  have s4: "insert_quotation_items (owner env) qid items st3 = (Inr (), st4)"
    unfolding st4_def by (rule loop2_ok [OF l2'])
  have "saveDraftToSupabase U env draft st = (Inr \<lparr>inquiryId = Ident (next_id st), quotationId = qid\<rparr>, st4)"
    by (simp only: save_configured [OF c ne] s1 s2 s3 s4 prod.case sum.case option.case
        response.select_convs)
  moreover have "qid = Ident (next_id st + ?N + 1)"
    by (simp add: qid_def st2_def st1_def)
  moreover have "st4 = st\<lparr>inquiries := inquiries st @ [(Ident (next_id st), spec_inquiry_row (owner env) draft)],
         inquiry_items := inquiry_items st @
           map (row_of (owner env) (Ident (next_id st)))
             (saved_items U (brand_alias st) (Suc (next_id st)) (select_faults st) (lines draft)),
         quotations := quotations st @
           [(Ident (next_id st + length (lines draft) + 1),
             spec_quotation_row (owner env) (Ident (next_id st)) draft)],
         quotation_items := quotation_items st @
           quotation_rows (owner env) (Ident (next_id st + length (lines draft) + 1)) (price_list st)
             (next_id st + length (lines draft) + 2)
             (drop (length (lines draft)) (select_faults st))
             (saved_items U (brand_alias st) (Suc (next_id st)) (select_faults st) (lines draft)),
         next_id := next_id st + 2 * length (lines draft) + 2,
         insert_faults := drop (2 * length (lines draft) + 2) (insert_faults st),
         select_faults := drop (2 * length (lines draft)) (select_faults st)\<rparr>"
    by (simp add: st4_def st3_def qid_def st2_def items_def st1_def drop_Suc tl_drop mult_2
        length_saved_items)
  ultimately show ?thesis by simp
qed

lemma insert_inquiry_fail:
  "insert_faults st = Some msg # rest \<Longrightarrow>
   insert_inquiry row st = (\<lparr>data = None, error = Some msg\<rparr>, st\<lparr>insert_faults := rest\<rparr>)"
  by (simp add: insert_inquiry_def take_fault_eq)

lemma save_fail:
  assumes c: "configured env"
    and f: "insert_faults st = replicate k None @ Some msg # rest"
    and k: "1 \<le> k" "k \<le> length (lines draft)"
  shows "saveDraftToSupabase U env draft st =
     (Inl (Error (str ''Create inquiry item failed: '' @ message_or_unknown (Some msg))),
      st\<lparr>inquiries := inquiries st @ [(Ident (next_id st), spec_inquiry_row (owner env) draft)],
         inquiry_items := inquiry_items st @
           map (row_of (owner env) (Ident (next_id st)))
             (saved_items U (brand_alias st) (Suc (next_id st)) (select_faults st)
                (take (k - 1) (lines draft))),
         next_id := next_id st + k,
         insert_faults := rest,
         select_faults := drop k (select_faults st)\<rparr>)"
proof -
  from k have ne: "lines draft \<noteq> []" by auto
  from k obtain j where j: "k = Suc j" by (cases k) auto
  with f have h0: "(case insert_faults st of [] \<Rightarrow> None | f # _ \<Rightarrow> f) = None" by simp
  define st1 where "st1 = st\<lparr>inquiries := inquiries st @ [(Ident (next_id st), spec_inquiry_row (owner env) draft)],
         next_id := Suc (next_id st), insert_faults := tl (insert_faults st)\<rparr>"
  have s1: "insert_inquiry (spec_inquiry_row (owner env) draft) st =
      (\<lparr>data = Some (Ident (next_id st)), error = None\<rparr>, st1)"
    unfolding st1_def by (rule insert_inquiry_ok [OF h0])
  have f1: "insert_faults st1 = replicate j None @ Some msg # rest"
    using f j by (simp add: st1_def)
  have j': "j < length (lines draft)" using k j by simp
  define st2 where "st2 = st1\<lparr>inquiry_items := inquiry_items st1 @
            map (row_of (owner env) (Ident (next_id st)))
              (saved_items U (brand_alias st1) (next_id st1) (select_faults st1) (take j (lines draft))),
         next_id := next_id st1 + j,
         insert_faults := rest,
         select_faults := drop (Suc j) (select_faults st1)\<rparr>"
  have s2: "insert_inquiry_items U (owner env) (Ident (next_id st)) (lines draft) [] st1 =
      (Inl (Error (str ''Create inquiry item failed: '' @ message_or_unknown (Some msg))), st2)"
    unfolding st2_def by (rule loop1_fail [OF f1 j'])
  have "saveDraftToSupabase U env draft st =
      (Inl (Error (str ''Create inquiry item failed: '' @ message_or_unknown (Some msg))), st2)"
    by (simp only: save_configured [OF c ne] s1 s2 prod.case sum.case option.case
        response.select_convs)
  moreover have "st2 = st\<lparr>inquiries := inquiries st @ [(Ident (next_id st), spec_inquiry_row (owner env) draft)],
         inquiry_items := inquiry_items st @
           map (row_of (owner env) (Ident (next_id st)))
             (saved_items U (brand_alias st) (Suc (next_id st)) (select_faults st)
                (take (k - 1) (lines draft))),
         next_id := next_id st + k,
         insert_faults := rest,
         select_faults := drop k (select_faults st)\<rparr>"
    by (simp add: st2_def st1_def j)
  ultimately show ?thesis by simp
qed

lemma save_unconfigured:
  "\<not> configured env \<Longrightarrow>
   saveDraftToSupabase U env draft st =
     (Inl (Error (str ''Missing SUPABASE_URL/SUPABASE_SERVICE_ROLE_KEY/SANDBOX_OWNER_USER_ID'')), st)"
  by (auto simp: saveDraftToSupabase_def text_js_env configured_def)

lemma save_empty:
  "configured env \<Longrightarrow> lines draft = [] \<Longrightarrow>
   saveDraftToSupabase U env draft st = (Inl (Error (str ''No valid lines to save.'')), st)"
  by (auto simp: saveDraftToSupabase_def text_js_env configured_def)

lemma no_fault_case:
  assumes "\<forall>f \<in> set (take m sf). f = None" and "k < m"
  shows "(case drop k sf of Some msg # _ \<Rightarrow> a | _ \<Rightarrow> b) = b"
proof (cases "k < length sf")
  case True
  then have d: "drop k sf = sf ! k # drop (Suc k) sf" by (simp add: Cons_nth_drop_Suc)
  from True assms(2) have "sf ! k \<in> set (take m sf)"
    by (metis in_set_conv_nth length_take min_less_iff_conj nth_take)
  with assms(1) have "sf ! k = None" by blast
  with d show ?thesis by simp
next
  case False
  then show ?thesis by simp
qed

lemma nth_saved_items:
  "k < length ls \<Longrightarrow>
   saved_items U tbl n sf ls ! k =
     \<lparr>si_id = Ident (n + k),
      si_brandInputUpper = brandInputUpper (ls ! k),
      si_brandStandard =
        (case drop k sf of Some msg # _ \<Rightarrow> brandInputUpper (ls ! k)
         | _ \<Rightarrow> spec_resolve U tbl (brandInputUpper (ls ! k))),
      si_catalogUpper = catalogUpper (ls ! k),
      si_normalizedCatalog = normalizedCatalog (ls ! k),
      si_quantity = quantity (ls ! k)\<rparr>"
proof (induction ls arbitrary: n sf k)
  case Nil
  then show ?case by simp
next
  case (Cons l ls)
  then show ?case by (cases k) (auto simp: drop_Suc split: list.splits option.splits)
qed

lemma nth_quotation_rows:
  "k < length items \<Longrightarrow>
   quotation_rows uid qid pl n sf items ! k =
     (let item = items ! k;
          hit = (case drop k sf of Some msg # _ \<Rightarrow> None
                 | _ \<Rightarrow> spec_price_hit pl (si_brandStandard item) (si_normalizedCatalog item))
      in (Ident (n + k),
          \<lparr>qi_quotation_id = qid,
           qi_inquiry_item_id = si_id item,
           qi_user_id = uid,
           qi_brand = si_brandStandard item,
           qi_catalog_number = si_catalogUpper item,
           qi_normalized_catalog_number = si_normalizedCatalog item,
           qi_quantity = si_quantity item,
           qi_price_list_id = hit,
           qi_match_status = (case hit of Some h \<Rightarrow> (str ''matched'') | None \<Rightarrow> (str ''not_found'')),
           qi_brand_input = si_brandInputUpper item,
           qi_brand_standard = si_brandStandard item\<rparr>))"
proof (induction items arbitrary: n sf k)
  case Nil
  then show ?case by simp
next
  case (Cons item items)
  then show ?case by (cases k) (auto simp: drop_Suc Let_def split: list.splits option.splits)
qed

lemma spec_price_hit_ok:
  assumes "price_lookup_ok pl b c"
  shows "(spec_price_hit pl b c = None \<longleftrightarrow>
            \<not> (\<exists>p \<in> set pl. pl_brand p = b \<and> pl_normalized_catalog_number p = c))
       \<and> (\<forall>p \<in> set pl. pl_brand p = b \<and> pl_normalized_catalog_number p = c \<longrightarrow>
            spec_price_hit pl b c = Some (pl_id p))"
proof -
  let ?m = "filter (\<lambda>r. pl_brand r = b \<and> pl_normalized_catalog_number r = c) pl"
  from assms consider "?m = []" | r where "?m = [r]"
    unfolding price_lookup_ok_def by (cases ?m rule: list.exhaust; cases "tl ?m") auto
  then show ?thesis
  proof cases
    case 1
    then have "\<not> (\<exists>p \<in> set pl. pl_brand p = b \<and> pl_normalized_catalog_number p = c)"
      by (simp add: filter_empty_conv)
    with 1 show ?thesis by (auto simp: spec_price_hit_def)
  next
    case 2
    then have "set ?m = {r}" by simp
    then have "\<forall>p \<in> set pl. pl_brand p = b \<and> pl_normalized_catalog_number p = c \<longrightarrow> p = r"
      and "r \<in> set pl \<and> pl_brand r = b \<and> pl_normalized_catalog_number r = c"
      by auto
    with 2 show ?thesis by (auto simp: spec_price_hit_def)
  qed
qed

section \<open>PersistenceOrchestrator\<close>

lemma matched_not_found: "str ''matched'' \<noteq> str ''not_found''"
  by (simp add: str_def)

text \<open>
  C3. For a draft without lines \<open>saveDraftToSupabase\<close> fails and returns the store as
  it was given, no request made; with the configuration present the failure is the
  validation error \<open>No valid lines to save.\<close>
\<close>

theorem saveDraftToSupabase_empty_lines:
  "lines draft = [] \<longrightarrow>
     (\<exists>e. saveDraftToSupabase U env draft st = (Inl e, st)) \<and>
     (configured env \<longrightarrow>
        saveDraftToSupabase U env draft st = (Inl (Error (str ''No valid lines to save.'')), st))"
  using save_unconfigured [of env U draft st] save_empty [of env draft U st] by auto

theorem saveDraftToSupabase_empty_lines_witness:
  "lines (example_draft\<lparr>lines := []\<rparr>) = []
   \<and> configured example_env
   \<and> saveDraftToSupabase ascii_toUpperCase example_env (example_draft\<lparr>lines := []\<rparr>) example_store
       = (Inl (Error (str ''No valid lines to save.'')), example_store)"
proof -
  have c: "configured example_env" by code_simp
  from saveDraftToSupabase_empty_lines
    [of "example_draft\<lparr>lines := []\<rparr>" ascii_toUpperCase example_env example_store] c
  show ?thesis by simp
qed

text \<open>
  C2. Let the configuration be present, and let the insert of the inquiry and the
  inserts of the inquiry items of the lines before line \<open>k\<close> succeed and the insert for
  line \<open>k\<close> fail. Then \<open>saveDraftToSupabase\<close> fails with the error of that insert, and
  the store holds one more inquiry and, after the inquiry items it had, one for each of
  the first \<open>k - 1\<close> lines, all referring to that inquiry; quotations and quotation
  items are as before, and no insert is requested after the failed one.
\<close>

theorem saveDraftToSupabase_item_insert_fails:
  assumes "configured env"
    and "insert_faults st = replicate k None @ Some msg # rest"
    and "1 \<le> k" and "k \<le> length (lines draft)"
  shows "\<exists>inquiry row its st'.
      saveDraftToSupabase U env draft st =
        (Inl (Error (str ''Create inquiry item failed: '' @ message_or_unknown (Some msg))), st')
    \<and> inquiries st' = inquiries st @ [(inquiry, row)]
    \<and> inquiry_items st' = inquiry_items st @ its
    \<and> length its = k - 1
    \<and> (\<forall>i < k - 1.
          ii_inquiry_id (snd (its ! i)) = inquiry \<and>
          ii_catalog_number (snd (its ! i)) = catalogUpper (lines draft ! i) \<and>
          ii_normalized_catalog_number (snd (its ! i)) = normalizedCatalog (lines draft ! i) \<and>
          ii_quantity (snd (its ! i)) = quantity (lines draft ! i))
    \<and> quotations st' = quotations st
    \<and> quotation_items st' = quotation_items st
    \<and> brand_alias st' = brand_alias st
    \<and> price_list st' = price_list st
    \<and> insert_faults st' = rest"
proof -
  let ?its = "map (row_of (owner env) (Ident (next_id st)))
      (saved_items U (brand_alias st) (Suc (next_id st)) (select_faults st) (take (k - 1) (lines draft)))"
  have n: "\<And>i. i < k - 1 \<Longrightarrow> i < length (take (k - 1) (lines draft))"
    using assms(4) by simp
  have "\<forall>i < k - 1.
          ii_inquiry_id (snd (?its ! i)) = Ident (next_id st) \<and>
          ii_catalog_number (snd (?its ! i)) = catalogUpper (lines draft ! i) \<and>
          ii_normalized_catalog_number (snd (?its ! i)) = normalizedCatalog (lines draft ! i) \<and>
          ii_quantity (snd (?its ! i)) = quantity (lines draft ! i)"
    using n by (simp add: nth_saved_items row_of_def length_saved_items)
  moreover have "length ?its = k - 1" using assms(4) by (simp add: length_saved_items)
  moreover note save_fail [OF assms]
  ultimately show ?thesis
    apply (intro exI [of _ "Ident (next_id st)"] exI [of _ "spec_inquiry_row (owner env) draft"]
        exI [of _ ?its])
    apply (rule exI [of _ "snd (saveDraftToSupabase U env draft st)"])
    apply simp
    done
qed

theorem saveDraftToSupabase_item_insert_fails_witness:
  "fst (saveDraftToSupabase ascii_toUpperCase example_env example_draft3
          (example_store\<lparr>insert_faults := [None, None, Some (str ''boom'')]\<rparr>))
     = Inl (Error (str ''Create inquiry item failed: boom''))
   \<and> length (inquiries (snd (saveDraftToSupabase ascii_toUpperCase example_env example_draft3
          (example_store\<lparr>insert_faults := [None, None, Some (str ''boom'')]\<rparr>)))) = 1
   \<and> length (inquiry_items (snd (saveDraftToSupabase ascii_toUpperCase example_env example_draft3
          (example_store\<lparr>insert_faults := [None, None, Some (str ''boom'')]\<rparr>)))) = 1
   \<and> quotations (snd (saveDraftToSupabase ascii_toUpperCase example_env example_draft3
          (example_store\<lparr>insert_faults := [None, None, Some (str ''boom'')]\<rparr>))) = []
   \<and> quotation_items (snd (saveDraftToSupabase ascii_toUpperCase example_env example_draft3
          (example_store\<lparr>insert_faults := [None, None, Some (str ''boom'')]\<rparr>))) = []"
proof -
  let ?st = "example_store\<lparr>insert_faults := [None, None, Some (str ''boom'')]\<rparr>"
  have c: "configured example_env" by code_simp
  have f: "insert_faults ?st = replicate 2 None @ Some (str ''boom'') # []"
    by (simp add: numeral_2_eq_2)
  have k: "(1::nat) \<le> 2" "2 \<le> length (lines example_draft3)"
    by (simp_all add: example_draft3_def)
  have e: "inquiries example_store = []" "inquiry_items example_store = []"
    "quotations example_store = []" "quotation_items example_store = []"
    by (simp_all add: example_store_def)
  have m: "message_or_unknown (Some (str ''boom'')) = str ''boom''" by code_simp
  have b: "str ''Create inquiry item failed: '' @ str ''boom''
      = str ''Create inquiry item failed: boom''"
    by code_simp
  from saveDraftToSupabase_item_insert_fails [OF c f k, where U = ascii_toUpperCase]
  show ?thesis by (auto simp: e m b)
qed

text \<open>
  C1. Let the configuration be present, the draft have \<open>N > 0\<close> lines, and every
  insert, alias lookup and price-list lookup of the run succeed. Then
  \<open>saveDraftToSupabase\<close> returns the identifiers of one new inquiry and one new
  quotation that refers to it; the store has gained \<open>N\<close> inquiry items, the \<open>k\<close>-th
  made from the \<open>k\<close>-th line and referring to the inquiry, and \<open>N\<close> quotation items,
  the \<open>k\<close>-th referring to the quotation and to the \<open>k\<close>-th inquiry item. The status
  of a quotation item is \<open>matched\<close> exactly when the price list has an entry for the
  resolved brand and the normalised catalog of its line; its price-list reference is
  then the identifier of that entry, and absent otherwise.
\<close>

theorem saveDraftToSupabase_success:
  assumes "configured env"
    and "lines draft \<noteq> []"
    and "\<forall>f \<in> set (take (2 * length (lines draft) + 2) (insert_faults st)). f = None"
    and "\<forall>f \<in> set (take (2 * length (lines draft)) (select_faults st)). f = None"
    and "\<forall>l \<in> set (lines draft).
           price_lookup_ok (price_list st)
             (spec_resolve U (brand_alias st) (brandInputUpper l)) (normalizedCatalog l)"
  shows "\<exists>inquiry quotation irow its qrow qis st'.
      saveDraftToSupabase U env draft st =
        (Inr \<lparr>inquiryId = inquiry, quotationId = quotation\<rparr>, st')
    \<and> inquiries st' = inquiries st @ [(inquiry, irow)]
    \<and> inquiry_items st' = inquiry_items st @ its
    \<and> length its = length (lines draft)
    \<and> quotations st' = quotations st @ [(quotation, qrow)]
    \<and> q_inquiry_id qrow = inquiry
    \<and> quotation_items st' = quotation_items st @ qis
    \<and> length qis = length (lines draft)
    \<and> brand_alias st' = brand_alias st
    \<and> price_list st' = price_list st
    \<and> (\<forall>k < length (lines draft).
          ii_inquiry_id (snd (its ! k)) = inquiry \<and>
          ii_brand (snd (its ! k)) = spec_resolve U (brand_alias st) (brandInputUpper (lines draft ! k)) \<and>
          ii_catalog_number (snd (its ! k)) = catalogUpper (lines draft ! k) \<and>
          ii_normalized_catalog_number (snd (its ! k)) = normalizedCatalog (lines draft ! k) \<and>
          ii_quantity (snd (its ! k)) = quantity (lines draft ! k) \<and>
          qi_quotation_id (snd (qis ! k)) = quotation \<and>
          qi_inquiry_item_id (snd (qis ! k)) = fst (its ! k) \<and>
          (qi_match_status (snd (qis ! k)) = str ''matched'' \<longleftrightarrow>
             (\<exists>p \<in> set (price_list st).
                pl_brand p = ii_brand (snd (its ! k)) \<and>
                pl_normalized_catalog_number p = normalizedCatalog (lines draft ! k))) \<and>
          (\<forall>p \<in> set (price_list st).
             pl_brand p = ii_brand (snd (its ! k)) \<and>
             pl_normalized_catalog_number p = normalizedCatalog (lines draft ! k) \<longrightarrow>
             qi_price_list_id (snd (qis ! k)) = Some (pl_id p)) \<and>
          (qi_match_status (snd (qis ! k)) \<noteq> (str ''matched'') \<longrightarrow>
             qi_match_status (snd (qis ! k)) = str ''not_found'' \<and>
             qi_price_list_id (snd (qis ! k)) = None))"
proof -
  let ?N = "length (lines draft)"
  let ?n = "next_id st"
  let ?items = "saved_items U (brand_alias st) (Suc ?n) (select_faults st) (lines draft)"
  let ?its = "map (row_of (owner env) (Ident ?n)) ?items"
  let ?quotation = "Ident (?n + ?N + 1)"
  let ?qis = "quotation_rows (owner env) ?quotation (price_list st) (?n + ?N + 2)
      (drop ?N (select_faults st)) ?items"
  note eq = save_ok [OF assms(1-3)]
  have item: "?items ! k =
      \<lparr>si_id = Ident (Suc ?n + k),
       si_brandInputUpper = brandInputUpper (lines draft ! k),
       si_brandStandard = spec_resolve U (brand_alias st) (brandInputUpper (lines draft ! k)),
       si_catalogUpper = catalogUpper (lines draft ! k),
       si_normalizedCatalog = normalizedCatalog (lines draft ! k),
       si_quantity = quantity (lines draft ! k)\<rparr>" if "k < ?N" for k
  proof -
    from that have "k < 2 * ?N" by simp
    from no_fault_case [OF assms(4) this] nth_saved_items [OF that]
    show ?thesis by simp
  qed
  have hit: "(case drop (k + ?N) (select_faults st) of Some msg # _ \<Rightarrow> a | _ \<Rightarrow> b) = b"
    if "k < ?N" for k and a b :: "ident option"
  proof -
    from that have "k + ?N < 2 * ?N" by simp
    from no_fault_case [OF assms(4) this] show ?thesis .
  qed
  have row: "?qis ! k =
      (Ident (?n + ?N + 2 + k),
       \<lparr>qi_quotation_id = ?quotation,
        qi_inquiry_item_id = si_id (?items ! k),
        qi_user_id = owner env,
        qi_brand = si_brandStandard (?items ! k),
        qi_catalog_number = si_catalogUpper (?items ! k),
        qi_normalized_catalog_number = si_normalizedCatalog (?items ! k),
        qi_quantity = si_quantity (?items ! k),
        qi_price_list_id =
          spec_price_hit (price_list st) (si_brandStandard (?items ! k)) (si_normalizedCatalog (?items ! k)),
        qi_match_status =
          (case spec_price_hit (price_list st) (si_brandStandard (?items ! k))
                  (si_normalizedCatalog (?items ! k)) of
             Some h \<Rightarrow> (str ''matched'') | None \<Rightarrow> (str ''not_found'')),
        qi_brand_input = si_brandInputUpper (?items ! k),
        qi_brand_standard = si_brandStandard (?items ! k)\<rparr>)" if "k < ?N" for k
    using that by (simp add: nth_quotation_rows Let_def hit length_saved_items)
  have per_line: "ii_inquiry_id (snd (?its ! k)) = Ident ?n \<and>
          ii_brand (snd (?its ! k)) = spec_resolve U (brand_alias st) (brandInputUpper (lines draft ! k)) \<and>
          ii_catalog_number (snd (?its ! k)) = catalogUpper (lines draft ! k) \<and>
          ii_normalized_catalog_number (snd (?its ! k)) = normalizedCatalog (lines draft ! k) \<and>
          ii_quantity (snd (?its ! k)) = quantity (lines draft ! k) \<and>
          qi_quotation_id (snd (?qis ! k)) = ?quotation \<and>
          qi_inquiry_item_id (snd (?qis ! k)) = fst (?its ! k) \<and>
          (qi_match_status (snd (?qis ! k)) = str ''matched'' \<longleftrightarrow>
             (\<exists>p \<in> set (price_list st).
                pl_brand p = ii_brand (snd (?its ! k)) \<and>
                pl_normalized_catalog_number p = normalizedCatalog (lines draft ! k))) \<and>
          (\<forall>p \<in> set (price_list st).
             pl_brand p = ii_brand (snd (?its ! k)) \<and>
             pl_normalized_catalog_number p = normalizedCatalog (lines draft ! k) \<longrightarrow>
             qi_price_list_id (snd (?qis ! k)) = Some (pl_id p)) \<and>
          (qi_match_status (snd (?qis ! k)) \<noteq> (str ''matched'') \<longrightarrow>
             qi_match_status (snd (?qis ! k)) = str ''not_found'' \<and>
             qi_price_list_id (snd (?qis ! k)) = None)" if k: "k < ?N" for k
  proof -
    let ?b = "spec_resolve U (brand_alias st) (brandInputUpper (lines draft ! k))"
    let ?c = "normalizedCatalog (lines draft ! k)"
    from k have "lines draft ! k \<in> set (lines draft)" by simp
    with assms(5) have "price_lookup_ok (price_list st) ?b ?c" by blast
    note ok = spec_price_hit_ok [OF this]
    have its: "?its ! k = row_of (owner env) (Ident ?n) (?items ! k)"
      using k by (simp add: length_saved_items)
    show ?thesis
      unfolding its row [OF k] item [OF k] using ok
      by (cases "spec_price_hit (price_list st) ?b ?c")
        (auto simp: row_of_def matched_not_found matched_not_found [symmetric])
  qed
  define st' where "st' = snd (saveDraftToSupabase U env draft st)"
  show ?thesis
  proof (intro exI conjI)
    show "saveDraftToSupabase U env draft st =
        (Inr \<lparr>inquiryId = Ident ?n, quotationId = ?quotation\<rparr>, st')"
      unfolding st'_def eq by simp
    show "inquiries st' = inquiries st @ [(Ident ?n, spec_inquiry_row (owner env) draft)]"
      unfolding st'_def eq by simp
    show "inquiry_items st' = inquiry_items st @ ?its"
      unfolding st'_def eq by simp
    show "length ?its = ?N" by (simp add: length_saved_items)
    show "quotations st' = quotations st @
        [(?quotation, spec_quotation_row (owner env) (Ident ?n) draft)]"
      unfolding st'_def eq by simp
    show "q_inquiry_id (spec_quotation_row (owner env) (Ident ?n) draft) = Ident ?n"
      by (simp add: spec_quotation_row_def)
    show "quotation_items st' = quotation_items st @ ?qis"
      unfolding st'_def eq by simp
    show "length ?qis = ?N" by (simp add: length_quotation_rows length_saved_items)
    show "brand_alias st' = brand_alias st"
      unfolding st'_def eq by simp
    show "price_list st' = price_list st"
      unfolding st'_def eq by simp
    show "\<forall>k < ?N.
          ii_inquiry_id (snd (?its ! k)) = Ident ?n \<and>
          ii_brand (snd (?its ! k)) = spec_resolve U (brand_alias st) (brandInputUpper (lines draft ! k)) \<and>
          ii_catalog_number (snd (?its ! k)) = catalogUpper (lines draft ! k) \<and>
          ii_normalized_catalog_number (snd (?its ! k)) = normalizedCatalog (lines draft ! k) \<and>
          ii_quantity (snd (?its ! k)) = quantity (lines draft ! k) \<and>
          qi_quotation_id (snd (?qis ! k)) = ?quotation \<and>
          qi_inquiry_item_id (snd (?qis ! k)) = fst (?its ! k) \<and>
          (qi_match_status (snd (?qis ! k)) = str ''matched'' \<longleftrightarrow>
             (\<exists>p \<in> set (price_list st).
                pl_brand p = ii_brand (snd (?its ! k)) \<and>
                pl_normalized_catalog_number p = normalizedCatalog (lines draft ! k))) \<and>
          (\<forall>p \<in> set (price_list st).
             pl_brand p = ii_brand (snd (?its ! k)) \<and>
             pl_normalized_catalog_number p = normalizedCatalog (lines draft ! k) \<longrightarrow>
             qi_price_list_id (snd (?qis ! k)) = Some (pl_id p)) \<and>
          (qi_match_status (snd (?qis ! k)) \<noteq> (str ''matched'') \<longrightarrow>
             qi_match_status (snd (?qis ! k)) = str ''not_found'' \<and>
             qi_price_list_id (snd (?qis ! k)) = None)"
      using per_line by (intro allI impI)
  qed
qed

theorem saveDraftToSupabase_success_witness:
  "fst (saveDraftToSupabase ascii_toUpperCase example_env example_draft3 example_store)
     = Inr \<lparr>inquiryId = Ident 100, quotationId = Ident 104\<rparr>
   \<and> length (inquiries (snd (saveDraftToSupabase ascii_toUpperCase example_env example_draft3 example_store))) = 1
   \<and> length (inquiry_items (snd (saveDraftToSupabase ascii_toUpperCase example_env example_draft3 example_store))) = 3
   \<and> length (quotations (snd (saveDraftToSupabase ascii_toUpperCase example_env example_draft3 example_store))) = 1
   \<and> length (quotation_items (snd (saveDraftToSupabase ascii_toUpperCase example_env example_draft3 example_store))) = 3
   \<and> map (\<lambda>r. (qi_match_status (snd r), qi_price_list_id (snd r)))
        (quotation_items (snd (saveDraftToSupabase ascii_toUpperCase example_env example_draft3 example_store)))
     = [(str ''matched'', Some (Ident 1)), (str ''not_found'', None), (str ''matched'', Some (Ident 1))]"
proof -
  have c: "configured example_env" by code_simp
  have n: "lines example_draft3 \<noteq> []" by (simp add: example_draft3_def)
  have i: "\<forall>f \<in> set (take (2 * length (lines example_draft3) + 2) (insert_faults example_store)). f = None"
    by (simp add: example_store_def)
  have s: "\<forall>f \<in> set (take (2 * length (lines example_draft3)) (select_faults example_store)). f = None"
    by (simp add: example_store_def)
  have p: "\<forall>l \<in> set (lines example_draft3).
      price_lookup_ok (price_list example_store)
        (spec_resolve ascii_toUpperCase (brand_alias example_store) (brandInputUpper l)) (normalizedCatalog l)"
    by code_simp
  have e: "inquiries example_store = []" "inquiry_items example_store = []"
    "quotations example_store = []" "quotation_items example_store = []"
    "length (lines example_draft3) = 3"
    by (simp_all add: example_store_def example_draft3_def)
  have v: "fst (saveDraftToSupabase ascii_toUpperCase example_env example_draft3 example_store)
      = Inr \<lparr>inquiryId = Ident 100, quotationId = Ident 104\<rparr>"
    "map (\<lambda>r. (qi_match_status (snd r), qi_price_list_id (snd r)))
        (quotation_items (snd (saveDraftToSupabase ascii_toUpperCase example_env example_draft3 example_store)))
     = [(str ''matched'', Some (Ident 1)), (str ''not_found'', None), (str ''matched'', Some (Ident 1))]"
    by code_simp+
  from saveDraftToSupabase_success [OF c n i s p] obtain inquiry quotation irow its qrow qis st' where
    "saveDraftToSupabase ascii_toUpperCase example_env example_draft3 example_store =
        (Inr \<lparr>inquiryId = inquiry, quotationId = quotation\<rparr>, st')"
    "inquiries st' = inquiries example_store @ [(inquiry, irow)]"
    "inquiry_items st' = inquiry_items example_store @ its"
    "length its = length (lines example_draft3)"
    "quotations st' = quotations example_store @ [(quotation, qrow)]"
    "quotation_items st' = quotation_items example_store @ qis"
    "length qis = length (lines example_draft3)"
    by blast
  with v show ?thesis by (simp add: e)
qed

section \<open>BrandResolver\<close>

text \<open>
  C6, as stated, fails where the standard brand of the entry has surrounding white
  space, which \<open>resolveBrand\<close> trims, and where it is blank or \<^verbatim>\<open>null\<close>, for which
  \<open>resolveBrand\<close> falls back to the input in upper case: the entry for \<open>ABC CO\<close> holds
  \<open>abc corp\<close> between blanks, the entry for \<open>BLANK CO\<close> two blanks, the entry for
  \<open>nobrand\<close> holds \<^verbatim>\<open>null\<close>.
\<close>

theorem resolveBrand_standard_brand_counterexample:
  "fst (resolveBrand ascii_toUpperCase (str ''ABC CO'') example_store) = Inr (str ''ABC CORP'')
   \<and> ascii_toUpperCase (str ''  abc corp '') = str ''  ABC CORP ''
   \<and> fst (resolveBrand ascii_toUpperCase (str ''BLANK CO'') example_store) = Inr (str ''BLANK CO'')
   \<and> ascii_toUpperCase (str ''  '') = str ''  ''
   \<and> fst (resolveBrand ascii_toUpperCase (str ''nobrand'') example_store) = Inr (str ''NOBRAND'')"
  by code_simp

text \<open>
  C6, amended. \<open>resolveBrand\<close> never fails and makes one select request. It returns
  its input unchanged when the lookup errors and when no entry has the input as its
  alias. When the lookup succeeds and \<open>r\<close> is the first entry with that alias, it
  returns the standard brand of \<open>r\<close> trimmed and in upper case, or, if that standard
  brand is \<^verbatim>\<open>null\<close> or blank, the input in upper case.
\<close>

theorem resolveBrand_cases:
  "(\<exists>b. resolveBrand U input st = (Inr b, st\<lparr>select_faults := tl (select_faults st)\<rparr>))
   \<and> (next_select_fails st \<longrightarrow> fst (resolveBrand U input st) = Inr input)
   \<and> ((\<forall>r \<in> set (brand_alias st). alias_key r \<noteq> input) \<longrightarrow>
        fst (resolveBrand U input st) = Inr input)
   \<and> (\<not> next_select_fails st \<and> filter (\<lambda>r. alias_key r = input) (brand_alias st) = r # rs \<longrightarrow>
        fst (resolveBrand U input st) =
          Inr (U (case standard_brand r of
                    None \<Rightarrow> input
                  | Some sb \<Rightarrow> if blank sb then input else strip sb)))"
proof -
  have 1: "\<exists>b. resolveBrand U input st = (Inr b, st\<lparr>select_faults := tl (select_faults st)\<rparr>)"
    by (simp add: resolveBrand_eq)
  have 2: "fst (resolveBrand U input st) = Inr input" if "next_select_fails st"
    using that
    by (auto simp: resolveBrand_eq next_select_fails_def split: list.splits option.splits)
  have 3: "fst (resolveBrand U input st) = Inr input"
    if "\<forall>r \<in> set (brand_alias st). alias_key r \<noteq> input"
  proof -
    from that have "filter (\<lambda>r. alias_key r = input) (brand_alias st) = []"
      by (simp add: filter_empty_conv)
    then show ?thesis
      by (auto simp: resolveBrand_eq spec_resolve_def split: list.splits option.splits)
  qed
  have 4: "fst (resolveBrand U input st) =
          Inr (U (case standard_brand r of
                    None \<Rightarrow> input
                  | Some sb \<Rightarrow> if blank sb then input else strip sb))"
    if "\<not> next_select_fails st" "filter (\<lambda>r. alias_key r = input) (brand_alias st) = r # rs"
    using that
    by (auto simp: resolveBrand_eq spec_resolve_def next_select_fails_def Let_def strip_Nil
        blank_strip split: list.splits option.splits)
  from 1 2 3 4 show ?thesis by blast
qed

theorem resolveBrand_cases_witness:
  "fst (resolveBrand ascii_toUpperCase (str ''ABCCO'') example_store) = Inr (str ''ABC CORP'')
   \<and> fst (resolveBrand ascii_toUpperCase (str ''UNKNOWN'') example_store) = Inr (str ''UNKNOWN'')
   \<and> next_select_fails (example_store\<lparr>select_faults := [Some (str ''timeout'')]\<rparr>)
   \<and> fst (resolveBrand ascii_toUpperCase (str ''ABCCO'')
            (example_store\<lparr>select_faults := [Some (str ''timeout'')]\<rparr>)) = Inr (str ''ABCCO'')
   \<and> fst (resolveBrand ascii_toUpperCase (str ''NB'')
            (example_store\<lparr>brand_alias :=
               [\<lparr>alias_key = str ''NB'',
                 standard_brand = Some ([160, 9] @ str ''abc corp'' @ [12288, 10])\<rparr>]\<rparr>))
       = Inr (str ''ABC CORP'')
   \<and> fst (resolveBrand ascii_toUpperCase (str ''nb'')
            (example_store\<lparr>brand_alias :=
               [\<lparr>alias_key = str ''nb'', standard_brand = Some [160, 8195]\<rparr>]\<rparr>))
       = Inr (str ''NB'')"
proof -
  let ?r = "\<lparr>alias_key = str ''ABCCO'', standard_brand = Some (str ''ABC CORP'')\<rparr>"
  let ?n = "\<lparr>alias_key = str ''NB'', standard_brand = Some ([160, 9] @ str ''abc corp'' @ [12288, 10])\<rparr>"
  let ?f = "example_store\<lparr>select_faults := [Some (str ''timeout'')]\<rparr>"
  let ?s = "example_store\<lparr>brand_alias := [?n]\<rparr>"
  let ?b = "\<lparr>alias_key = str ''nb'', standard_brand = Some [160, 8195]\<rparr>"
  let ?t = "example_store\<lparr>brand_alias := [?b]\<rparr>"
  have a: "\<not> next_select_fails example_store"
    "filter (\<lambda>r. alias_key r = str ''ABCCO'') (brand_alias example_store) = ?r # []"
    by code_simp+
  have b: "\<forall>r \<in> set (brand_alias example_store). alias_key r \<noteq> str ''UNKNOWN''"
    by code_simp
  have c: "next_select_fails ?f" by code_simp
  have d: "\<not> next_select_fails ?s"
    "filter (\<lambda>r. alias_key r = str ''NB'') (brand_alias ?s) = ?n # []"
    by code_simp+
  have g: "\<not> next_select_fails ?t"
    "filter (\<lambda>r. alias_key r = str ''nb'') (brand_alias ?t) = ?b # []"
    by code_simp+
  have e: "ascii_toUpperCase (case standard_brand ?b of
               None \<Rightarrow> str ''nb''
             | Some sb \<Rightarrow> if blank sb then str ''nb'' else strip sb) = str ''NB''"
    "ascii_toUpperCase (case standard_brand ?r of
               None \<Rightarrow> str ''ABCCO''
             | Some sb \<Rightarrow> if blank sb then str ''ABCCO'' else strip sb) = str ''ABC CORP''"
    "ascii_toUpperCase (case standard_brand ?n of
               None \<Rightarrow> str ''NB''
             | Some sb \<Rightarrow> if blank sb then str ''NB'' else strip sb) = str ''ABC CORP''"
    by code_simp+
  note t1 = resolveBrand_cases [of ascii_toUpperCase "str ''ABCCO''" example_store ?r "[]"]
  note t2 = resolveBrand_cases [of ascii_toUpperCase "str ''UNKNOWN''" example_store]
  note t3 = resolveBrand_cases [of ascii_toUpperCase "str ''ABCCO''" ?f]
  note t4 = resolveBrand_cases [of ascii_toUpperCase "str ''NB''" ?s ?n "[]"]
  note t5 = resolveBrand_cases [of ascii_toUpperCase "str ''nb''" ?t ?b "[]"]
  from t1 [THEN conjunct2, THEN conjunct2, THEN conjunct2, THEN mp, OF conjI [OF a]]
  have 1: "fst (resolveBrand ascii_toUpperCase (str ''ABCCO'') example_store) = Inr (str ''ABC CORP'')"
    unfolding e .
  from t2 [THEN conjunct2, THEN conjunct2, THEN conjunct1, THEN mp, OF b]
  have 2: "fst (resolveBrand ascii_toUpperCase (str ''UNKNOWN'') example_store) = Inr (str ''UNKNOWN'')" .
  from t3 [THEN conjunct2, THEN conjunct1, THEN mp, OF c]
  have 3: "fst (resolveBrand ascii_toUpperCase (str ''ABCCO'') ?f) = Inr (str ''ABCCO'')" .
  from t4 [THEN conjunct2, THEN conjunct2, THEN conjunct2, THEN mp, OF conjI [OF d]]
  have 4: "fst (resolveBrand ascii_toUpperCase (str ''NB'') ?s) = Inr (str ''ABC CORP'')"
    unfolding e .
  from t5 [THEN conjunct2, THEN conjunct2, THEN conjunct2, THEN mp, OF conjI [OF g]]
  have 5: "fst (resolveBrand ascii_toUpperCase (str ''nb'') ?t) = Inr (str ''NB'')"
    unfolding e .
  from 1 2 c 3 4 5 show ?thesis by (intro conjI)
qed

lemma fault_split:
  "(\<forall>f \<in> set (take n fs). f = None) \<or>
   (\<exists>j msg rest. j < n \<and> fs = replicate j None @ Some msg # rest)"
proof (induction fs arbitrary: n)
  case Nil
  show ?case by simp
next
  case (Cons f fs)
  show ?case
  proof (cases n)
    case 0
    then show ?thesis by simp
  next
    case (Suc m)
    show ?thesis
    proof (cases f)
      case None
      from Cons.IH [of m] show ?thesis
      proof
        assume "\<forall>f \<in> set (take m fs). f = None"
        with None Suc show ?thesis by simp
      next
        assume "\<exists>j msg rest. j < m \<and> fs = replicate j None @ Some msg # rest"
        then obtain j msg rest where "j < m" "fs = replicate j None @ Some msg # rest" by blast
        with None Suc have "Suc j < n \<and> f # fs = replicate (Suc j) None @ Some msg # rest" by simp
        then show ?thesis by blast
      qed
    next
      case (Some msg)
      with Suc have "0 < n \<and> f # fs = replicate 0 None @ Some msg # fs" by simp
      then show ?thesis by blast
    qed
  qed
qed

lemma insert_quotation_frame:
  "insert_quotation row st = (r, st') \<Longrightarrow> inquiry_items st' = inquiry_items st"
  by (auto simp: insert_quotation_def take_fault_eq split: option.splits)

lemma insert_quotation_item_frame:
  "insert_quotation_item row st = (r, st') \<Longrightarrow> inquiry_items st' = inquiry_items st"
  by (auto simp: insert_quotation_item_def take_fault_eq split: option.splits)

lemma loop2_frame:
  "insert_quotation_items uid qid items st = (r, st') \<Longrightarrow> inquiry_items st' = inquiry_items st"
proof (induction items arbitrary: st)
  case Nil
  then show ?case by simp
next
  case (Cons item items)
  then show ?case
    by (auto simp: select_price_list_eq Let_def split: prod.splits option.splits
        dest!: insert_quotation_item_frame)
qed

lemma loop1_general:
  "\<exists>n \<le> length ls.
     inquiry_items (snd (insert_inquiry_items U uid iid ls acc st)) =
       inquiry_items st @
         map (row_of uid iid) (saved_items U (brand_alias st) (next_id st) (select_faults st) (take n ls))
   \<and> ((\<exists>r. fst (insert_inquiry_items U uid iid ls acc st) = Inr r) \<longrightarrow> n = length ls)
   \<and> (n = length ls \<longrightarrow>
        insert_inquiry_items U uid iid ls acc st =
          (Inr (acc @ saved_items U (brand_alias st) (next_id st) (select_faults st) ls),
           st\<lparr>inquiry_items := inquiry_items st @
                 map (row_of uid iid) (saved_items U (brand_alias st) (next_id st) (select_faults st) ls),
              next_id := next_id st + length ls,
              insert_faults := drop (length ls) (insert_faults st),
              select_faults := drop (length ls) (select_faults st)\<rparr>))"
proof -
  from fault_split [of "length ls" "insert_faults st"] show ?thesis
  proof
    assume a: "\<forall>f \<in> set (take (length ls) (insert_faults st)). f = None"
    show ?thesis
      by (rule exI [of _ "length ls"]) (simp add: loop1_ok [OF a])
  next
    assume "\<exists>j msg rest. j < length ls \<and> insert_faults st = replicate j None @ Some msg # rest"
    then obtain j msg rest where j: "j < length ls"
      and f: "insert_faults st = replicate j None @ Some msg # rest" by blast
    show ?thesis
      using j by (intro exI [of _ j]) (simp add: loop1_fail [OF f j])
  qed
qed

lemma save_items_general:
  "\<exists>n \<le> length (lines draft). \<exists>iid.
     inquiry_items (snd (saveDraftToSupabase U env draft st)) =
       inquiry_items st @
         map (row_of (owner env) iid)
           (saved_items U (brand_alias st) (Suc (next_id st)) (select_faults st) (take n (lines draft)))
   \<and> ((\<exists>s. fst (saveDraftToSupabase U env draft st) = Inr s) \<longrightarrow> n = length (lines draft))"
proof -
  let ?P = "\<lambda>n iid. inquiry_items (snd (saveDraftToSupabase U env draft st)) =
       inquiry_items st @
         map (row_of (owner env) iid)
           (saved_items U (brand_alias st) (Suc (next_id st)) (select_faults st) (take n (lines draft)))
   \<and> ((\<exists>s. fst (saveDraftToSupabase U env draft st) = Inr s) \<longrightarrow> n = length (lines draft))"
  consider (unconf) "\<not> configured env"
    | (empty) "configured env" "lines draft = []"
    | (first) msg rest where "configured env" "lines draft \<noteq> []" "insert_faults st = Some msg # rest"
    | (run) "configured env" "lines draft \<noteq> []"
        "(case insert_faults st of [] \<Rightarrow> None | f # _ \<Rightarrow> f) = None"
    by (cases "insert_faults st"; cases "hd (insert_faults st)") auto
  then show ?thesis
  proof cases
    case unconf
    then have "?P 0 (Ident 0)" by (simp add: save_unconfigured)
    then show ?thesis by blast
  next
    case empty
    then have "?P 0 (Ident 0)" by (simp add: save_empty)
    then show ?thesis by blast
  next
    case first
    have "saveDraftToSupabase U env draft st =
        (Inl (Error (str ''Create inquiry failed: '' @ message_or_unknown (Some msg))),
         st\<lparr>insert_faults := rest\<rparr>)"
      by (simp only: save_configured [OF first(1,2)] insert_inquiry_fail [OF first(3)]
          prod.case option.case response.select_convs)
    then have "?P 0 (Ident 0)" by simp
    then show ?thesis by blast
  next
    case run
    let ?iid = "Ident (next_id st)"
    define st1 where "st1 = st\<lparr>inquiries := inquiries st @ [(?iid, spec_inquiry_row (owner env) draft)],
         next_id := Suc (next_id st), insert_faults := tl (insert_faults st)\<rparr>"
    have s1: "insert_inquiry (spec_inquiry_row (owner env) draft) st =
        (\<lparr>data = Some ?iid, error = None\<rparr>, st1)"
      unfolding st1_def by (rule insert_inquiry_ok [OF run(3)])
    obtain r2 st2 where s2: "insert_inquiry_items U (owner env) ?iid (lines draft) [] st1 = (r2, st2)"
      by (cases "insert_inquiry_items U (owner env) ?iid (lines draft) [] st1") auto
    from loop1_general [of "lines draft" U "owner env" ?iid "[]" st1] s2
    obtain n where n: "n \<le> length (lines draft)"
      and i: "inquiry_items st2 = inquiry_items st @
         map (row_of (owner env) ?iid)
           (saved_items U (brand_alias st) (Suc (next_id st)) (select_faults st) (take n (lines draft)))"
      and ok: "(\<exists>r. r2 = Inr r) \<longrightarrow> n = length (lines draft)"
      by (auto simp: st1_def)
    show ?thesis
    proof (cases r2)
      case (Inl e)
      have "saveDraftToSupabase U env draft st = (Inl e, st2)"
        by (simp only: save_configured [OF run(1,2)] s1 s2 Inl prod.case sum.case option.case
            response.select_convs)
      with i n have "n \<le> length (lines draft) \<and> ?P n ?iid" by simp
      then show ?thesis by blast
    next
      case (Inr items)
      with ok have full: "n = length (lines draft)" by blast
      have "inquiry_items (snd (saveDraftToSupabase U env draft st)) = inquiry_items st2"
        apply (simp only: save_configured [OF run(1,2)] s1 s2 Inr prod.case sum.case option.case
            response.select_convs)
        apply (auto split: prod.splits option.splits sum.splits
            dest!: insert_quotation_frame loop2_frame)
        done
      with i full have "n \<le> length (lines draft) \<and> ?P n ?iid" by simp
      then show ?thesis by blast
    qed
  qed
qed

section \<open>Order\<close>

text \<open>
  C8. The lines of a returned draft are the lines of the surviving items in the order
  of the items: a subsequence of the item-by-item lines. In every run of
  \<open>saveDraftToSupabase\<close>, whatever fails, the inquiry items that the store gains are
  made from an initial segment of the lines, the \<open>k\<close>-th inserted item from the
  \<open>k\<close>-th line (its catalog texts and quantity, and as brand either the resolved brand
  or, after a failed lookup, the input brand); in a run that succeeds there is one for
  every line.
\<close>

theorem order_of_lines_and_inquiry_items:
  "(transformAiToDraft U ai = Inr d \<longrightarrow>
      lines d = map (spec_line U) (filter spec_survives (items_of (own_prop ai (str ''items'')))) \<and>
      subseq (lines d) (map (spec_line U) (items_of (own_prop ai (str ''items'')))))
   \<and> (\<exists>its.
        inquiry_items (snd (saveDraftToSupabase U env draft st)) = inquiry_items st @ its \<and>
        length its \<le> length (lines draft) \<and>
        (\<forall>k < length its.
           ii_catalog_number (snd (its ! k)) = catalogUpper (lines draft ! k) \<and>
           ii_normalized_catalog_number (snd (its ! k)) = normalizedCatalog (lines draft ! k) \<and>
           ii_quantity (snd (its ! k)) = quantity (lines draft ! k) \<and>
           ii_brand (snd (its ! k)) \<in>
             {brandInputUpper (lines draft ! k),
              spec_resolve U (brand_alias st) (brandInputUpper (lines draft ! k))}) \<and>
        ((\<exists>s. fst (saveDraftToSupabase U env draft st) = Inr s) \<longrightarrow>
           length its = length (lines draft)))"
proof (intro conjI impI)
  assume "transformAiToDraft U ai = Inr d"
  then show l: "lines d = map (spec_line U) (filter spec_survives (items_of (own_prop ai (str ''items''))))"
    by (rule transformAiToDraft_lines)
  show "subseq (lines d) (map (spec_line U) (items_of (own_prop ai (str ''items''))))"
    unfolding l by (intro subseq_map subseq_filter_left)
next
  from save_items_general [where draft = draft and env = env and st = st and U = U] obtain n iid where
    n: "n \<le> length (lines draft)" and
    i: "inquiry_items (snd (saveDraftToSupabase U env draft st)) =
       inquiry_items st @
         map (row_of (owner env) iid)
           (saved_items U (brand_alias st) (Suc (next_id st)) (select_faults st) (take n (lines draft)))" and
    ok: "(\<exists>s. fst (saveDraftToSupabase U env draft st) = Inr s) \<longrightarrow> n = length (lines draft)"
    by blast
  let ?its = "map (row_of (owner env) iid)
           (saved_items U (brand_alias st) (Suc (next_id st)) (select_faults st) (take n (lines draft)))"
  have len: "length ?its = n" using n by (simp add: length_saved_items)
  have "ii_catalog_number (snd (?its ! k)) = catalogUpper (lines draft ! k) \<and>
        ii_normalized_catalog_number (snd (?its ! k)) = normalizedCatalog (lines draft ! k) \<and>
        ii_quantity (snd (?its ! k)) = quantity (lines draft ! k) \<and>
        ii_brand (snd (?its ! k)) \<in>
          {brandInputUpper (lines draft ! k),
           spec_resolve U (brand_alias st) (brandInputUpper (lines draft ! k))}" if "k < n" for k
  proof -
    from that n have k: "k < length (take n (lines draft))" by simp
    from that have t: "take n (lines draft) ! k = lines draft ! k" by simp
    show ?thesis
      using k
      by (simp add: nth_saved_items [OF k] row_of_def t length_saved_items
          split: list.splits option.splits)
  qed
  with i n ok len show "\<exists>its.
        inquiry_items (snd (saveDraftToSupabase U env draft st)) = inquiry_items st @ its \<and>
        length its \<le> length (lines draft) \<and>
        (\<forall>k < length its.
           ii_catalog_number (snd (its ! k)) = catalogUpper (lines draft ! k) \<and>
           ii_normalized_catalog_number (snd (its ! k)) = normalizedCatalog (lines draft ! k) \<and>
           ii_quantity (snd (its ! k)) = quantity (lines draft ! k) \<and>
           ii_brand (snd (its ! k)) \<in>
             {brandInputUpper (lines draft ! k),
              spec_resolve U (brand_alias st) (brandInputUpper (lines draft ! k))}) \<and>
        ((\<exists>s. fst (saveDraftToSupabase U env draft st) = Inr s) \<longrightarrow>
           length its = length (lines draft))"
    by (intro exI [of _ ?its]) (simp only:, blast)
qed

theorem order_of_lines_and_inquiry_items_witness:
  "transformAiToDraft ascii_toUpperCase example_raw = Inr example_draft
   \<and> subseq (lines example_draft) (map (spec_line ascii_toUpperCase) (items_of (own_prop example_raw (str ''items''))))
   \<and> map quantity (lines example_draft) = [5, 7]
   \<and> fst (saveDraftToSupabase ascii_toUpperCase example_env example_draft3 example_store)
       = Inr \<lparr>inquiryId = Ident 100, quotationId = Ident 104\<rparr>
   \<and> map (\<lambda>r. (ii_catalog_number (snd r), ii_quantity (snd r)))
        (inquiry_items (snd (saveDraftToSupabase ascii_toUpperCase example_env example_draft3 example_store)))
       = [(str ''XY-100'', 5), (str ''ZZ 9'', 2), (str ''XY-100'', 9)]"
proof -
  have t: "transformAiToDraft ascii_toUpperCase example_raw = Inr example_draft" by code_simp
  have v: "map quantity (lines example_draft) = [5, 7]"
    "fst (saveDraftToSupabase ascii_toUpperCase example_env example_draft3 example_store)
       = Inr \<lparr>inquiryId = Ident 100, quotationId = Ident 104\<rparr>"
    "map (\<lambda>r. (ii_catalog_number (snd r), ii_quantity (snd r)))
        (inquiry_items (snd (saveDraftToSupabase ascii_toUpperCase example_env example_draft3 example_store)))
       = [(str ''XY-100'', 5), (str ''ZZ 9'', 2), (str ''XY-100'', 9)]"
    by code_simp+
  from order_of_lines_and_inquiry_items
         [of ascii_toUpperCase example_raw example_draft example_env example_draft3 example_store] t
  have "subseq (lines example_draft) (map (spec_line ascii_toUpperCase) (items_of (own_prop example_raw (str ''items''))))"
    by blast
  with t v show ?thesis by (intro conjI)
qed

section \<open>The run without the save flag\<close>

lemma pipeline_without_save:
  assumes "save_flag ext req \<noteq> Inr True"
  shows "pipeline U persist ext env req st =
     (bindE (save_flag ext req) (\<lambda>save.
        bindE (pullLatestEmail ext) (\<lambda>m.
        bindE (aiExtract ext (mail_subject m) (mail_from m) (mail_text m)) (\<lambda>ai.
        bindE (transformAiToDraft U (ai_json ai)) (\<lambda>d.
          Inr \<lparr>ok_save = False, ok_mail = summary m, ok_ai_model = ai_model ai,
               ok_ai_json = ai_json ai, ok_transformed = d, ok_saved = None\<rparr>)))),
      st)"
proof -
  define parsed where
    "parsed = (case req_body req of JStr s \<Rightarrow> JSON_parse ext s | b \<Rightarrow> Inr (coalesce b (JObj [])))"
  show ?thesis
  proof (cases parsed)
    case (Inl e)
    then show ?thesis
      unfolding pipeline_def save_flag_def parsed_def [symmetric] by (simp add: bindE_def)
  next
    case body: (Inr body)
    define got where "got = (if nullish body then Inr JUndefined else js_get body (str ''save''))"
    show ?thesis
    proof (cases got)
      case (Inl e)
      then show ?thesis
        unfolding pipeline_def save_flag_def parsed_def [symmetric] body
        by (simp add: bindE_def got_def [symmetric])
    next
      case flag: (Inr flag)
      from assms have "\<not> js_Boolean flag"
        unfolding save_flag_def parsed_def [symmetric] body
        by (simp add: bindE_def got_def [symmetric] flag)
      then show ?thesis
        unfolding pipeline_def save_flag_def parsed_def [symmetric] body
        by (simp add: bindE_def got_def [symmetric] flag summary_def Let_def split: sum.splits)
    qed
  qed
qed

text \<open>
  C10. In every invocation whose save flag is absent or falsy the store is left as it
  was, no request made, and the answer is the same whatever the persistence step would
  do: it is not invoked. An answer with a result is a 200 whose \<open>saved\<close> is \<^verbatim>\<open>null\<close>
  and whose \<open>save\<close> is false, and it carries the summary of the pulled mail, the
  extraction and the draft normalised from it; the handler gives that answer whenever
  the request is an authorised POST and the mail, the extraction and the normalisation
  succeed.
\<close>

theorem handler_without_save_flag:
  assumes "save_flag ext req \<noteq> Inr True"
  shows "snd (handler U ext env req st) = st
    \<and> handler_with U persist ext env req st = handler U ext env req st
    \<and> (\<forall>code body. fst (handler U ext env req st) = Response code (Success body) \<longrightarrow>
          code = 200 \<and> ok_saved body = None \<and> \<not> ok_save body \<and>
          (\<exists>m ai.
             pullLatestEmail ext = Inr m \<and>
             aiExtract ext (mail_subject m) (mail_from m) (mail_text m) = Inr ai \<and>
             transformAiToDraft U (ai_json ai) = Inr (ok_transformed body) \<and>
             ok_mail body = summary m \<and>
             ok_ai_model body = ai_model ai \<and>
             ok_ai_json body = ai_json ai))
    \<and> (req_method req = str ''POST'' \<and> unauthorized env req = Inr False \<and>
        save_flag ext req = Inr False \<and>
        pullLatestEmail ext = Inr m \<and>
        aiExtract ext (mail_subject m) (mail_from m) (mail_text m) = Inr ai \<and>
        transformAiToDraft U (ai_json ai) = Inr d \<longrightarrow>
          fst (handler U ext env req st) =
            Response 200 (Success \<lparr>ok_save = False, ok_mail = summary m, ok_ai_model = ai_model ai,
                                   ok_ai_json = ai_json ai, ok_transformed = d, ok_saved = None\<rparr>))"
proof -
  define r where "r = bindE (save_flag ext req) (\<lambda>save.
        bindE (pullLatestEmail ext) (\<lambda>m.
        bindE (aiExtract ext (mail_subject m) (mail_from m) (mail_text m)) (\<lambda>ai.
        bindE (transformAiToDraft U (ai_json ai)) (\<lambda>d.
          Inr \<lparr>ok_save = False, ok_mail = summary m, ok_ai_model = ai_model ai,
               ok_ai_json = ai_json ai, ok_transformed = d, ok_saved = None\<rparr>))))"
  have p: "pipeline U persist ext env req st = (r, st)" for persist
    unfolding r_def by (rule pipeline_without_save [OF assms])
  have h: "handler_with U persist ext env req st =
      ((if req_method req \<noteq> (str ''POST'') then Response 405 (Failure (str ''Method not allowed''))
        else case unauthorized env req of
          Inl e \<Rightarrow> Rejected e
        | Inr True \<Rightarrow> Response 401 (Failure (str ''Unauthorized''))
        | Inr False \<Rightarrow>
            (case r of
               Inr body \<Rightarrow> Response 200 (Success body)
             | Inl err \<Rightarrow> Response 500 (Failure (error_text err)))), st)" for persist
    by (simp add: handler_with_def p split: sum.splits bool.splits)
  have 1: "snd (handler U ext env req st) = st"
    by (simp add: handler_def h)
  have 2: "handler_with U persist ext env req st = handler U ext env req st"
    by (simp only: handler_def h)
  have 3: "code = 200 \<and> ok_saved body = None \<and> \<not> ok_save body \<and>
          (\<exists>m ai.
             pullLatestEmail ext = Inr m \<and>
             aiExtract ext (mail_subject m) (mail_from m) (mail_text m) = Inr ai \<and>
             transformAiToDraft U (ai_json ai) = Inr (ok_transformed body) \<and>
             ok_mail body = summary m \<and>
             ok_ai_model body = ai_model ai \<and>
             ok_ai_json body = ai_json ai)"
    if a: "fst (handler U ext env req st) = Response code (Success body)" for code body
  proof -
    from a have "code = 200 \<and> r = Inr body"
      by (simp add: handler_def h split: if_splits sum.splits bool.splits)
    then have c: "code = 200" and b: "r = Inr body" by simp_all
    from b obtain save m ai d where
      "pullLatestEmail ext = Inr m"
      "aiExtract ext (mail_subject m) (mail_from m) (mail_text m) = Inr ai"
      "transformAiToDraft U (ai_json ai) = Inr d"
      "body = \<lparr>ok_save = False, ok_mail = summary m, ok_ai_model = ai_model ai,
               ok_ai_json = ai_json ai, ok_transformed = d, ok_saved = None\<rparr>"
      unfolding r_def bindE_Inr by auto
    with c show ?thesis by auto
  qed
  have 4: "fst (handler U ext env req st) =
            Response 200 (Success \<lparr>ok_save = False, ok_mail = summary m, ok_ai_model = ai_model ai,
                                   ok_ai_json = ai_json ai, ok_transformed = d, ok_saved = None\<rparr>)"
    if "req_method req = str ''POST''" "unauthorized env req = Inr False"
      "save_flag ext req = Inr False" "pullLatestEmail ext = Inr m"
      "aiExtract ext (mail_subject m) (mail_from m) (mail_text m) = Inr ai"
      "transformAiToDraft U (ai_json ai) = Inr d"
    using that by (simp add: handler_def h r_def bindE_def)
  from 1 2 3 4 show ?thesis by blast
qed

theorem handler_without_save_flag_witness:
  "save_flag example_ext (example_request (JObj [])) = Inr False
   \<and> snd (handler ascii_toUpperCase example_ext example_env (example_request (JObj [])) example_store) = example_store
   \<and> fst (handler ascii_toUpperCase example_ext example_env (example_request (JObj [])) example_store) =
       Response 200 (Success \<lparr>ok_save = False, ok_mail = summary example_mail,
                              ok_ai_model = str ''gpt-4o-mini'', ok_ai_json = example_raw,
                              ok_transformed = example_draft, ok_saved = None\<rparr>)"
proof -
  have f: "save_flag example_ext (example_request (JObj [])) = Inr False" by code_simp
  then have n: "save_flag example_ext (example_request (JObj [])) \<noteq> Inr True" by simp
  have h: "req_method (example_request (JObj [])) = str ''POST''"
    "unauthorized example_env (example_request (JObj [])) = Inr False"
    "pullLatestEmail example_ext = Inr example_mail"
    "aiExtract example_ext (mail_subject example_mail) (mail_from example_mail) (mail_text example_mail)
       = Inr \<lparr>ai_model = str ''gpt-4o-mini'', ai_json = example_raw, ai_raw = []\<rparr>"
    "transformAiToDraft ascii_toUpperCase example_raw = Inr example_draft"
    by code_simp+
  note t = handler_without_save_flag [OF n, of ascii_toUpperCase example_env example_store
         "saveDraftToSupabase ascii_toUpperCase" example_mail "\<lparr>ai_model = str ''gpt-4o-mini'', ai_json = example_raw, ai_raw = []\<rparr>" example_draft]
  from t have a: "snd (handler ascii_toUpperCase example_ext example_env (example_request (JObj [])) example_store)
      = example_store" by (rule conjunct1)
  from t [THEN conjunct2, THEN conjunct2, THEN conjunct2] f h
  have b: "fst (handler ascii_toUpperCase example_ext example_env (example_request (JObj [])) example_store) =
       Response 200 (Success \<lparr>ok_save = False, ok_mail = summary example_mail,
                              ok_ai_model = str ''gpt-4o-mini'', ok_ai_json = example_raw,
                              ok_transformed = example_draft, ok_saved = None\<rparr>)"
    by (simp only: simp_thms extraction.select_convs)
  from f a b show ?thesis by (intro conjI)
qed

end
